theory Spec2Isabelle
  imports Complex_Main
begin

section \<open>Data model of the BLE device manager component\<close>

text \<open>
  The component \<open>BLEDeviceManager\<close> is a React function component. Its data lives in
  three places, which the model keeps apart because the source treats them differently:
  \<^item> React state variables (\<open>useState\<close>): written through their setters; a function of
    the component body reads the value that was current in the render that created the
    function (a \<open>const\<close> of that render), not the latest one;
  \<^item> refs (\<open>useRef\<close>): read and written in place, always the latest value;
  \<^item> the world outside the component: the timers armed with \<open>setTimeout\<close> and the
    listeners registered with the BLE library.
  Every handler is a state transformer. What the BLE library answers (a promise that
  resolves or rejects, a call that throws) is an argument of the handler. A handler runs
  to completion: the interleaving of other events between two \<open>await\<close>s is not modelled.
  Alerts and console output are not modelled.
\<close>

record Device =
  id_d :: string
  name :: "string option"
  rssi :: "int option"
  isConnectable :: "bool option"
  serviceUUIDs :: "string list option"

record NotificationData =
  id_n :: rat
  serviceUUID :: string
  characteristicUUID :: string
  value_n :: string
  timestamp :: string

datatype ConnectionStatus =
    Disconnected
  | Connecting
  | Connected
  | ConnectionFailed
  | Reconnecting
  | BluetoothOff
  | CheckingBluetooth

datatype State = Unknown | Resetting | Unsupported | Unauthorized | PoweredOff | PoweredOn

text \<open>An error object: its \<open>message\<close>, which may be missing.\<close>

datatype error = Error (message: "string option")

text \<open>
  What the functions created in one render see of the React state: the \<open>const\<close>s
  \<open>isScanning\<close>, \<open>isConnected\<close>, \<open>connectedDevice\<close>, \<open>autoReconnect\<close> and
  \<open>permissionsGranted\<close> of lines 46-56 as that render bound them. The other state
  variables are read by the rendering only, or through functional updates
  (\<open>setDevices(prev => ...)\<close>), which receive the latest value.
\<close>

record closure =
  isScanning_c :: bool
  isConnected_c :: bool
  connectedDevice_c :: "Device option"
  autoReconnect_c :: bool
  permissionsGranted_c :: bool

text \<open>
  A pending timer is its callback. The scan timer (lines 289-292) calls \<open>stopScan\<close>; the
  reconnect timer (lines 426-429) calls the \<open>connectToDevice\<close> of the render whose
  \<open>scheduleReconnect\<close> armed it, on the device it was armed for.
\<close>

datatype timer_action = ScanTimeout | ReconnectTimeout closure Device

text \<open>
  A live subscription of the BLE library: the disconnect listener of lines 401-417 (with
  the render and the device it closes over) or the monitor of one characteristic
  (lines 467-489, with the uuids of its service and characteristic).
\<close>

datatype subscription = DisconnectMonitor closure Device | CharacteristicMonitor string string

record state =
  isScanning :: bool
  devices :: "Device list"
  connectedDevice :: "Device option"
  isConnected :: bool
  notifications :: "NotificationData list"
  autoReconnect :: bool
  connectionStatus :: ConnectionStatus
  bluetoothState :: State
  permissionsGranted :: bool
  bleManagerRef :: bool
  reconnectTimeoutRef :: "nat option"
  scanTimeoutRef :: "nat option"
  subscriptionsRef :: "nat list"
  stateSubscriptionRef :: "closure option"
  timers :: "nat \<rightharpoonup> timer_action"
  nextTimer :: nat
  subscriptions :: "nat \<rightharpoonup> subscription"
  nextSubscription :: nat
  adapterScanning :: bool
  statusTrace :: "ConnectionStatus list"

text \<open>
  \<open>bleManagerRef\<close> is whether the ref holds a manager; \<open>stateSubscriptionRef\<close> is the
  render whose listener \<open>onStateChange\<close> registered. \<open>timers\<close> are the pending timers by
  handle, \<open>subscriptions\<close> the live library subscriptions by handle (handles are issued
  in sequence, \<open>nextTimer\<close> and \<open>nextSubscription\<close> being the next ones);
  \<open>adapterScanning\<close> is whether the library is scanning. \<open>statusTrace\<close> records every call of
  \<open>setConnectionStatus\<close> in order (the source overwrites the status several times within
  one handler).
\<close>

definition initial_state :: state where
  "initial_state =
     \<lparr> isScanning = False, devices = [], connectedDevice = None, isConnected = False,
       notifications = [], autoReconnect = True, connectionStatus = CheckingBluetooth,
       bluetoothState = Unknown, permissionsGranted = False, bleManagerRef = False,
       reconnectTimeoutRef = None, scanTimeoutRef = None, subscriptionsRef = [],
       stateSubscriptionRef = None, timers = Map.empty, nextTimer = 0,
       subscriptions = Map.empty,
       nextSubscription = 0, adapterScanning = False, statusTrace = [] \<rparr>"

text \<open>The closure a render of the state \<open>s\<close> gives to the functions it creates.\<close>

definition render :: "state \<Rightarrow> closure" where
  "render s =
     \<lparr> isScanning_c = isScanning s, isConnected_c = isConnected s,
       connectedDevice_c = connectedDevice s, autoReconnect_c = autoReconnect s,
       permissionsGranted_c = permissionsGranted s \<rparr>"

definition setConnectionStatus :: "ConnectionStatus \<Rightarrow> state \<Rightarrow> state" where
  "setConnectionStatus c s =
     s\<lparr> connectionStatus := c, statusTrace := statusTrace s @ [c] \<rparr>"

subsection \<open>Timers and subscriptions\<close>

definition setTimeout :: "timer_action \<Rightarrow> state \<Rightarrow> nat \<times> state" where
  "setTimeout a s =
     (nextTimer s, s\<lparr> timers := (timers s)(nextTimer s \<mapsto> a), nextTimer := Suc (nextTimer s) \<rparr>)"

definition clearTimeout :: "nat \<Rightarrow> state \<Rightarrow> state" where
  "clearTimeout t s = s\<lparr> timers := (timers s)(t := None) \<rparr>"

definition pending :: "nat \<Rightarrow> state \<Rightarrow> bool" where
  "pending t s = (timers s t \<noteq> None)"

definition addSubscription :: "subscription \<Rightarrow> state \<Rightarrow> nat \<times> state" where
  "addSubscription k s =
     (nextSubscription s,
      s\<lparr> subscriptions := (subscriptions s)(nextSubscription s \<mapsto> k),
         nextSubscription := Suc (nextSubscription s) \<rparr>)"

definition remove :: "nat \<Rightarrow> state \<Rightarrow> state" where
  "remove h s = s\<lparr> subscriptions := (subscriptions s)(h := None) \<rparr>"

text \<open>
  Lines 194-197, 409-412 and 533-536: every handle of \<open>subscriptionsRef\<close> is removed,
  then the ref is emptied.
\<close>

definition clearSubscriptions :: "state \<Rightarrow> state" where
  "clearSubscriptions s = (fold remove (subscriptionsRef s) s)\<lparr> subscriptionsRef := [] \<rparr>"

section \<open>Scanning\<close>

text \<open>Lines 300-310.\<close>

definition stopScan :: "state \<Rightarrow> state" where
  "stopScan s =
     (let s1 = (if bleManagerRef s then s\<lparr> adapterScanning := False \<rparr> else s);
          s2 = s1\<lparr> isScanning := False \<rparr>
      in case scanTimeoutRef s2 of None \<Rightarrow> s2 | Some t \<Rightarrow> clearTimeout t s2)"

text \<open>
  Lines 208-231. \<open>state_r\<close> is what \<open>bleManager.state()\<close> resolves to (or the error it
  rejects with), \<open>granted_r\<close> what \<open>requestPermissions\<close> returns when it is asked. The
  result is \<open>None\<close> when the promise rejects.
\<close>

record prerequisites_env =
  state_r :: "error + State"
  granted_r :: bool

definition checkPrerequisites ::
  "closure \<Rightarrow> prerequisites_env \<Rightarrow> state \<Rightarrow> (bool \<times> state) option" where
  "checkPrerequisites c env s =
     (if \<not> bleManagerRef s then Some (False, s)
      else case state_r env of
        Inl e \<Rightarrow> None
      | Inr st \<Rightarrow>
          if st \<noteq> PoweredOn then Some (False, s)
          else if \<not> permissionsGranted_c c then
            (if \<not> granted_r env then Some (False, s)
             else Some (True, s\<lparr> permissionsGranted := True \<rparr>))
          else Some (True, s))"

text \<open>
  Lines 233-298. \<open>startDeviceScan_throws\<close> is whether the library call throws. A
  rejection inside \<open>checkPrerequisites\<close> is outside the \<open>try\<close>: the function stops with
  the state as it is.
\<close>

record scan_env =
  prerequisites :: prerequisites_env
  startDeviceScan_throws :: bool

definition startScan :: "closure \<Rightarrow> scan_env \<Rightarrow> state \<Rightarrow> state" where
  "startScan c env s =
     (case checkPrerequisites c (prerequisites env) s of
        None \<Rightarrow> s
      | Some (canProceed, s1) \<Rightarrow>
          if \<not> canProceed then s1
          else
            let s2 = s1\<lparr> isScanning := True, devices := [] \<rparr>
            in if startDeviceScan_throws env then s2\<lparr> isScanning := False \<rparr>
               else
                 let s3 = s2\<lparr> adapterScanning := True \<rparr>;
                     (t, s4) = setTimeout ScanTimeout s3
                 in s4\<lparr> scanTimeoutRef := Some t \<rparr>)"

text \<open>\<open>Array.prototype.findIndex\<close>: the index of the first match, or \<open>-1\<close>.\<close>

fun findIndex :: "('a \<Rightarrow> bool) \<Rightarrow> 'a list \<Rightarrow> int" where
  "findIndex P [] = - 1"
| "findIndex P (x # xs) =
     (if P x then 0 else (let i = findIndex P xs in if i = - 1 then - 1 else i + 1))"

text \<open>Lines 271-283: the functional update of \<open>devices\<close> for one discovered device.\<close>

definition addDevice :: "Device \<Rightarrow> Device list \<Rightarrow> Device list" where
  "addDevice device prevDevices =
     (let existingDeviceIndex = findIndex (\<lambda>d. id_d d = id_d device) prevDevices
      in if existingDeviceIndex \<noteq> - 1 then prevDevices[nat existingDeviceIndex := device]
         else prevDevices @ [device])"

text \<open>
  Lines 251-285: the callback of \<open>startDeviceScan\<close> receives an error, a device, or
  neither.
\<close>

datatype scan_result = ScanError error | ScanDevice Device | ScanNothing

fun onScanResult :: "scan_result \<Rightarrow> state \<Rightarrow> state" where
  "onScanResult (ScanError e) s = s\<lparr> isScanning := False \<rparr>"
| "onScanResult (ScanDevice device) s = s\<lparr> devices := addDevice device (devices s) \<rparr>"
| "onScanResult ScanNothing s = s"

section \<open>Subscriptions and the notification log\<close>

text \<open>
  A characteristic as \<open>subscribeToCharacteristics\<close> uses it: its uuid, its
  \<open>isNotifiable\<close> flag, and whether \<open>characteristic.monitor\<close> throws when called on it. A
  service is its uuid and what \<open>service.characteristics()\<close> resolves to or rejects with.
\<close>

record Characteristic =
  uuid_c :: string
  isNotifiable :: bool
  monitor_throws :: bool

record Service =
  uuid_s :: string
  characteristics_r :: "error + Characteristic list"

text \<open>
  Lines 451-500, the loop over the characteristics of one service. The accumulator is the
  state, \<open>notificationCount\<close>, and the uuids of the characteristics on which \<open>monitor\<close>
  was called.
\<close>

fun subscribeCharacteristics ::
  "string \<Rightarrow> Characteristic list \<Rightarrow> state \<times> nat \<times> string list \<Rightarrow> state \<times> nat \<times> string list" where
  "subscribeCharacteristics su [] acc = acc"
| "subscribeCharacteristics su (ch # chs) (s, notificationCount, attempted) =
     subscribeCharacteristics su chs
       (if isNotifiable ch then
          (if monitor_throws ch then (s, notificationCount, attempted @ [uuid_c ch])
           else
             let (h, s1) = addSubscription (CharacteristicMonitor su (uuid_c ch)) s
             in (s1\<lparr> subscriptionsRef := subscriptionsRef s1 @ [h] \<rparr>,
                 Suc notificationCount, attempted @ [uuid_c ch]))
        else (s, notificationCount, attempted))"

text \<open>Lines 442-507, the loop over the services; a service whose enumeration fails is skipped.\<close>

fun subscribeServices ::
  "Service list \<Rightarrow> state \<times> nat \<times> string list \<Rightarrow> state \<times> nat \<times> string list" where
  "subscribeServices [] acc = acc"
| "subscribeServices (sv # svs) acc =
     subscribeServices svs
       (case characteristics_r sv of
          Inl e \<Rightarrow> acc
        | Inr chs \<Rightarrow> subscribeCharacteristics (uuid_s sv) chs acc)"

text \<open>
  Lines 434-515. The argument is what \<open>device.services()\<close> resolves to or rejects with.
  The result is the state, the count the function logs at lines 509-511 (\<open>None\<close> when
  the outer \<open>catch\<close> is taken and nothing is logged), and the uuids on which \<open>monitor\<close>
  was called.
\<close>

definition subscribeToCharacteristics ::
  "error + Service list \<Rightarrow> state \<Rightarrow> state \<times> nat option \<times> string list" where
  "subscribeToCharacteristics services_r s =
     (case services_r of
        Inl e \<Rightarrow> (s, None, [])
      | Inr services \<Rightarrow>
          (case subscribeServices services (s, 0, []) of
             (s1, notificationCount, attempted) \<Rightarrow> (s1, Some notificationCount, attempted)))"

text \<open>Lines 484-487: \<open>[notification, ...prev.slice(0, 99)]\<close>.\<close>

definition pushNotification :: "NotificationData \<Rightarrow> NotificationData list \<Rightarrow> NotificationData list" where
  "pushNotification notification prev = notification # take 99 prev"

text \<open>
  The readings the monitor callback takes: \<open>Date.now()\<close> (integer milliseconds),
  \<open>Math.random()\<close> and \<open>new Date().toLocaleTimeString()\<close>. \<open>Math.random()\<close> is at
  least 0 and below 1; the sum of line 477 is a double, and rounding can bring what it
  adds to the clock reading up to 1. The model adds the fraction exactly, and the
  properties assume of it only that it lies between 0 and 1.
\<close>

record clock =
  now :: int
  random :: rat
  localeTime :: string

record char_update =
  uuid_u :: string
  value_u :: "string option"

text \<open>Line 477: \<open>Date.now() + Math.random()\<close>.\<close>

definition notificationId :: "clock \<Rightarrow> rat" where
  "notificationId k = of_int (now k) + random k"

text \<open>
  Lines 467-489: the callback of \<open>monitor\<close> for a characteristic of the service \<open>su\<close>.
  An empty \<open>value\<close> is falsy, like a missing one.
\<close>

definition monitorCallback ::
  "string \<Rightarrow> error option \<Rightarrow> char_update option \<Rightarrow> clock \<Rightarrow> state \<Rightarrow> state" where
  "monitorCallback su err char k s =
     (case err of
        Some e \<Rightarrow> s
      | None \<Rightarrow>
          (case char of
             None \<Rightarrow> s
           | Some ch \<Rightarrow>
               (case value_u ch of
                  None \<Rightarrow> s
                | Some v \<Rightarrow>
                    if v = [] then s
                    else s\<lparr> notifications :=
                           pushNotification
                             \<lparr> id_n = notificationId k, serviceUUID = su,
                               characteristicUUID = uuid_u ch, value_n = v,
                               timestamp = localeTime k \<rparr>
                             (notifications s) \<rparr>)))"

text \<open>The library calls the callback of a monitor only while its subscription is live.\<close>

definition onCharacteristicUpdate ::
  "nat \<Rightarrow> error option \<Rightarrow> char_update option \<Rightarrow> clock \<Rightarrow> state \<Rightarrow> state" where
  "onCharacteristicUpdate h err char k s =
     (case subscriptions s h of
        Some (CharacteristicMonitor su cu) \<Rightarrow> monitorCallback su err char k s
      | _ \<Rightarrow> s)"

section \<open>Connecting, reconnecting and disconnecting\<close>

text \<open>\<open>String.prototype.includes\<close>.\<close>

fun startsWith :: "string \<Rightarrow> string \<Rightarrow> bool" where
  "startsWith s [] = True"
| "startsWith [] (p # ps) = False"
| "startsWith (c # cs) (p # ps) = (c = p \<and> startsWith cs ps)"

fun includes_str :: "string \<Rightarrow> string \<Rightarrow> bool" where
  "includes_str [] p = (p = [])"
| "includes_str (c # cs) p = (startsWith (c # cs) p \<or> includes_str cs p)"

text \<open>Lines 422-430.\<close>

definition scheduleReconnect :: "closure \<Rightarrow> Device \<Rightarrow> state \<Rightarrow> state" where
  "scheduleReconnect c device s =
     (let s1 = setConnectionStatus Reconnecting s;
          (t, s2) = setTimeout (ReconnectTimeout c device) s1
      in s2\<lparr> reconnectTimeoutRef := Some t \<rparr>)"

text \<open>Line 370: \<open>error.message || 'Unknown error'\<close>; an empty message is falsy.\<close>

definition rawMessage :: "error \<Rightarrow> string" where
  "rawMessage e =
     (case message e of None \<Rightarrow> ''Unknown error'' | Some m \<Rightarrow> if m = [] then ''Unknown error'' else m)"

text \<open>Lines 372-381: the message after the chain of tests.\<close>

definition classifiedMessage :: "string \<Rightarrow> string" where
  "classifiedMessage errorMessage =
     (if includes_str errorMessage ''timeout'' then
        ''Connection timeout. Make sure the device is nearby and in pairing mode.''
      else if includes_str errorMessage ''Device not found'' then
        ''Device not found. It may have moved out of range.''
      else if includes_str errorMessage ''Device disconnected'' then
        ''Device disconnected during connection attempt.''
      else if includes_str errorMessage ''Operation was cancelled'' then
        ''Connection was cancelled.''
      else errorMessage)"

text \<open>
  The branch of that chain a message takes, named after the error taxonomy of the
  specification; \<open>Unclassified\<close> is the final \<open>else\<close>, where the message is kept.
\<close>

datatype error_class =
    ConnectTimeout
  | DeviceNotFound
  | DeviceDisconnectedDuringSetup
  | OperationCancelled
  | Unclassified

definition classify :: "string \<Rightarrow> error_class" where
  "classify errorMessage =
     (if includes_str errorMessage ''timeout'' then ConnectTimeout
      else if includes_str errorMessage ''Device not found'' then DeviceNotFound
      else if includes_str errorMessage ''Device disconnected'' then DeviceDisconnectedDuringSetup
      else if includes_str errorMessage ''Operation was cancelled'' then OperationCancelled
      else Unclassified)"

text \<open>Lines 366-393, the \<open>catch\<close> of \<open>connectToDevice\<close>.\<close>

definition connectFailed :: "closure \<Rightarrow> Device \<Rightarrow> error \<Rightarrow> state \<Rightarrow> state" where
  "connectFailed c device e s =
     (let s1 = setConnectionStatus ConnectionFailed s;
          errorMessage = classifiedMessage (rawMessage e);
          s2 = s1\<lparr> connectedDevice := None, isConnected := False \<rparr>
      in if autoReconnect_c c \<and> \<not> includes_str errorMessage ''cancelled''
         then scheduleReconnect c device s2
         else s2)"

text \<open>Lines 396-420: the disconnect listener is registered and kept with the other handles.\<close>

definition setupConnectionMonitoring :: "closure \<Rightarrow> Device \<Rightarrow> state \<Rightarrow> state" where
  "setupConnectionMonitoring c device s =
     (let (h, s1) = addSubscription (DisconnectMonitor c device) s
      in s1\<lparr> subscriptionsRef := subscriptionsRef s1 @ [h] \<rparr>)"

text \<open>
  What the library answers during one \<open>connectToDevice\<close>: \<open>device.isConnected()\<close>,
  \<open>bleManager.connectToDevice\<close>, \<open>discoverAllServicesAndCharacteristics\<close> (\<open>None\<close> when it
  resolves) and \<open>device.services()\<close>.
\<close>

record connect_env =
  isConnected_r :: "error + bool"
  connectToDevice_r :: "error + Device"
  discover_r :: "error option"
  services_r :: "error + Service list"

text \<open>Lines 312-394.\<close>

definition connectToDevice :: "closure \<Rightarrow> connect_env \<Rightarrow> Device \<Rightarrow> state \<Rightarrow> state" where
  "connectToDevice c env device s =
     (if \<not> bleManagerRef s then s
      else
        let s1 = setConnectionStatus Connecting s;
            s2 = (if isScanning_c c then stopScan s1 else s1)
        in case isConnected_r env of
             Inl e \<Rightarrow> connectFailed c device e s2
           | Inr isAlreadyConnected \<Rightarrow>
               if isAlreadyConnected then
                 fst (subscribeToCharacteristics (services_r env)
                        (setConnectionStatus Connected
                           (s2\<lparr> connectedDevice := Some device, isConnected := True \<rparr>)))
               else
                 (case connectToDevice_r env of
                    Inl e \<Rightarrow> connectFailed c device e s2
                  | Inr connectedDev \<Rightarrow>
                      (case discover_r env of
                         Some e \<Rightarrow> connectFailed c device e s2
                       | None \<Rightarrow>
                           let s3 = setConnectionStatus Connected
                                      (s2\<lparr> connectedDevice := Some connectedDev,
                                           isConnected := True \<rparr>);
                               s4 = setupConnectionMonitoring c connectedDev s3
                           in fst (subscribeToCharacteristics (services_r env) s4))))"

text \<open>Line 414: \<open>error?.message?.includes('cancelled')\<close>, falsy when a link is missing.\<close>

definition mentionsCancelled :: "error option \<Rightarrow> bool" where
  "mentionsCancelled err =
     (case err of
        None \<Rightarrow> False
      | Some e \<Rightarrow> (case message e of None \<Rightarrow> False | Some m \<Rightarrow> includes_str m ''cancelled''))"

text \<open>Lines 401-417: the listener \<open>setupConnectionMonitoring\<close> registers.\<close>

definition disconnectedCallback ::
  "closure \<Rightarrow> Device \<Rightarrow> error option \<Rightarrow> Device option \<Rightarrow> state \<Rightarrow> state" where
  "disconnectedCallback c device err disconnectedDevice s =
     (let s1 = s\<lparr> isConnected := False, connectedDevice := None \<rparr>;
          s2 = setConnectionStatus Disconnected s1;
          s3 = clearSubscriptions s2
      in if autoReconnect_c c \<and> \<not> mentionsCancelled err
         then scheduleReconnect c (case disconnectedDevice of Some d \<Rightarrow> d | None \<Rightarrow> device) s3
         else s3)"

text \<open>
  A peripheral-initiated disconnect of the device \<open>i\<close>: the library calls the disconnect
  listeners registered for that device, in the order of their handles, each one if it
  is still live when its turn comes.
\<close>

fun deliverDisconnected ::
  "nat list \<Rightarrow> string \<Rightarrow> error option \<Rightarrow> Device option \<Rightarrow> state \<Rightarrow> state" where
  "deliverDisconnected [] i err dd s = s"
| "deliverDisconnected (h # hs) i err dd s =
     deliverDisconnected hs i err dd
       (case subscriptions s h of
          Some (DisconnectMonitor c device) \<Rightarrow>
            if id_d device = i then disconnectedCallback c device err dd s else s
        | _ \<Rightarrow> s)"

definition onDeviceDisconnected ::
  "string \<Rightarrow> error option \<Rightarrow> Device option \<Rightarrow> state \<Rightarrow> state" where
  "onDeviceDisconnected i err dd s = deliverDisconnected [0..<nextSubscription s] i err dd s"

text \<open>
  Lines 521-549. \<open>cancel_r\<close> is the error \<open>cancelDeviceConnection\<close> rejects with, \<open>None\<close>
  when it resolves.
\<close>

definition disconnect :: "closure \<Rightarrow> error option \<Rightarrow> state \<Rightarrow> state" where
  "disconnect c cancel_r s =
     (if \<not> bleManagerRef s \<or> connectedDevice_c c = None then s
      else
        let s1 = (case reconnectTimeoutRef s of None \<Rightarrow> s | Some t \<Rightarrow> clearTimeout t s);
            s2 = clearSubscriptions s1
        in case cancel_r of
             Some e \<Rightarrow> s2
           | None \<Rightarrow>
               (setConnectionStatus Disconnected
                  (s2\<lparr> connectedDevice := None, isConnected := False \<rparr>))
                 \<lparr> notifications := [] \<rparr>)"

text \<open>
  A timer that fires leaves the pending timers and runs its callback; a handle that is
  not pending (cleared, or fired before) does nothing.
\<close>

definition fireTimer :: "nat \<Rightarrow> connect_env \<Rightarrow> state \<Rightarrow> state" where
  "fireTimer t env s =
     (case timers s t of
        None \<Rightarrow> s
      | Some a \<Rightarrow>
          (case a of
             ScanTimeout \<Rightarrow> stopScan (clearTimeout t s)
           | ReconnectTimeout c device \<Rightarrow> connectToDevice c env device (clearTimeout t s)))"

section \<open>The radio state\<close>

text \<open>Lines 106-120.\<close>

definition updateConnectionStatusFromBluetoothState :: "closure \<Rightarrow> State \<Rightarrow> state \<Rightarrow> state" where
  "updateConnectionStatusFromBluetoothState c st s =
     (if st = PoweredOn then
        (if \<not> isConnected_c c then setConnectionStatus Disconnected s else s)
      else if st = PoweredOff then
        (let s1 = setConnectionStatus BluetoothOff s
         in if isScanning_c c then stopScan s1 else s1)
      else setConnectionStatus CheckingBluetooth s)"

text \<open>Lines 85-89: the listener given to \<open>onStateChange\<close>.\<close>

definition stateListener :: "closure \<Rightarrow> State \<Rightarrow> state \<Rightarrow> state" where
  "stateListener c newState s =
     updateConnectionStatusFromBluetoothState c newState (s\<lparr> bluetoothState := newState \<rparr>)"

text \<open>
  Lines 71-104. \<open>onStateChange\<close> is called with \<open>emitCurrentState = true\<close>, so the
  listener runs once with the current state when it is registered.
\<close>

record init_env =
  newBleManager_throws :: bool
  initialState_r :: "error + State"
  android :: bool
  requestPermissions_r :: bool

definition initializeBLE :: "closure \<Rightarrow> init_env \<Rightarrow> state \<Rightarrow> state" where
  "initializeBLE c env s =
     (if newBleManager_throws env then s
      else
        let s1 = s\<lparr> bleManagerRef := True \<rparr>
        in case initialState_r env of
             Inl e \<Rightarrow> s1
           | Inr st \<Rightarrow>
               let s2 = updateConnectionStatusFromBluetoothState c st (s1\<lparr> bluetoothState := st \<rparr>);
                   s3 = stateListener c st (s2\<lparr> stateSubscriptionRef := Some c \<rparr>)
               in s3\<lparr> permissionsGranted :=
                        (if android env then requestPermissions_r env else True) \<rparr>)"

text \<open>
  Lines 64-69: the effect has no dependencies, so it runs once, after the first render:
  \<open>initializeBLE\<close>, and through it the state listener, are the functions of the first
  render, whose closure is the initial state's.
\<close>

definition mount :: "init_env \<Rightarrow> state" where
  "mount env = initializeBLE (render initial_state) env initial_state"

text \<open>A radio state transition: the library calls the registered listener.\<close>

definition onStateChange :: "State \<Rightarrow> state \<Rightarrow> state" where
  "onStateChange newState s =
     (case stateSubscriptionRef s of None \<Rightarrow> s | Some c \<Rightarrow> stateListener c newState s)"

section \<open>Notions used to state the properties\<close>

text \<open>
  The identities of a sequence of discovery events in the order of their first sighting,
  and the most recent event of a sequence that carries a given identity.
\<close>

definition firstSightings :: "string list \<Rightarrow> string list" where
  "firstSightings is = rev (remdups (rev is))"

definition latest :: "Device list \<Rightarrow> string \<Rightarrow> Device" where
  "latest ds i = last (filter (\<lambda>e. id_d e = i) ds)"

text \<open>
  For the attach operation: the notifiable characteristics of the services whose
  enumeration succeeds, each with the uuid of its service, in the order of the
  enumeration; those of them on which \<open>monitor\<close> does not throw; and the library's
  subscriptions after monitors for a list of characteristics have been registered under
  consecutive handles. \<open>disconnectMonitors i s\<close> are the handles of the disconnect
  listeners that are live in \<open>s\<close> for the device \<open>i\<close>.
\<close>

definition notifiable :: "Service list \<Rightarrow> (string \<times> Characteristic) list" where
  "notifiable services =
     concat (map (\<lambda>sv. case characteristics_r sv of
                          Inl e \<Rightarrow> []
                        | Inr chs \<Rightarrow> map (Pair (uuid_s sv)) (filter isNotifiable chs))
               services)"

definition established :: "Service list \<Rightarrow> (string \<times> Characteristic) list" where
  "established services = filter (\<lambda>p. \<not> monitor_throws (snd p)) (notifiable services)"

fun register ::
  "(nat \<rightharpoonup> subscription) \<Rightarrow> nat \<Rightarrow> (string \<times> Characteristic) list \<Rightarrow> (nat \<rightharpoonup> subscription)" where
  "register m n [] = m"
| "register m n (p # ps) = register (m(n \<mapsto> CharacteristicMonitor (fst p) (uuid_c (snd p)))) (Suc n) ps"

definition disconnectMonitors :: "string \<Rightarrow> state \<Rightarrow> nat list" where
  "disconnectMonitors i s =
     filter (\<lambda>h. case subscriptions s h of
                   Some (DisconnectMonitor c d) \<Rightarrow> id_d d = i
                 | _ \<Rightarrow> False)
       [0..<nextSubscription s]"

text \<open>
  For a connection attempt: the error its \<open>try\<close> block throws with the given answers of
  the library (\<open>None\<close> when it throws nothing), and whether, between the states \<open>s\<close> and
  \<open>s'\<close>, a reconnect timer for the device was armed and stored in the ref.
\<close>

definition failure :: "connect_env \<Rightarrow> error option" where
  "failure env =
     (case isConnected_r env of
        Inl e \<Rightarrow> Some e
      | Inr isAlreadyConnected \<Rightarrow>
          if isAlreadyConnected then None
          else (case connectToDevice_r env of Inl e \<Rightarrow> Some e | Inr connectedDev \<Rightarrow> discover_r env))"

definition reconnectArmed :: "closure \<Rightarrow> Device \<Rightarrow> state \<Rightarrow> state \<Rightarrow> bool" where
  "reconnectArmed c device s s' =
     (nextTimer s' = Suc (nextTimer s) \<and> reconnectTimeoutRef s' = Some (nextTimer s) \<and>
      timers s' (nextTimer s) = Some (ReconnectTimeout c device))"

subsection \<open>Concrete inputs\<close>

definition poweredOn_env :: init_env where
  "poweredOn_env =
     \<lparr> newBleManager_throws = False, initialState_r = Inr PoweredOn, android = True,
       requestPermissions_r = True \<rparr>"

definition scan_ok :: scan_env where
  "scan_ok =
     \<lparr> prerequisites = \<lparr> state_r = Inr PoweredOn, granted_r = True \<rparr>,
       startDeviceScan_throws = False \<rparr>"

definition sensor :: Device where
  "sensor =
     \<lparr> id_d = ''AA:01'', name = Some ''Sensor'', rssi = Some (- 60), isConnectable = Some True,
       serviceUUIDs = None \<rparr>"

definition beacon :: Device where
  "beacon =
     \<lparr> id_d = ''BB:02'', name = None, rssi = Some (- 72), isConnectable = Some True,
       serviceUUIDs = None \<rparr>"

definition heartRate :: Service where
  "heartRate =
     \<lparr> uuid_s = ''180d'',
       characteristics_r =
         Inr [\<lparr> uuid_c = ''2a37'', isNotifiable = True, monitor_throws = False \<rparr>,
              \<lparr> uuid_c = ''2a38'', isNotifiable = False, monitor_throws = False \<rparr>,
              \<lparr> uuid_c = ''2a39'', isNotifiable = True, monitor_throws = True \<rparr>,
              \<lparr> uuid_c = ''2a3a'', isNotifiable = True, monitor_throws = False \<rparr>] \<rparr>"

definition broken :: Service where
  "broken = \<lparr> uuid_s = ''1800'', characteristics_r = Inl (Error (Some ''Characteristics not discovered'')) \<rparr>"

definition battery :: Service where
  "battery =
     \<lparr> uuid_s = ''180f'',
       characteristics_r =
         Inr [\<lparr> uuid_c = ''2a19'', isNotifiable = True, monitor_throws = False \<rparr>] \<rparr>"

text \<open>The library's answers when the device is already connected.\<close>

definition alreadyConnected :: connect_env where
  "alreadyConnected =
     \<lparr> isConnected_r = Inr True, connectToDevice_r = Inl (Error None), discover_r = None,
       services_r = Inr [heartRate, broken, battery] \<rparr>"

text \<open>The library's answers when the connection request fails with the given message.\<close>

definition connectFails :: "string \<Rightarrow> connect_env" where
  "connectFails m =
     \<lparr> isConnected_r = Inr False, connectToDevice_r = Inl (Error (Some m)), discover_r = None,
       services_r = Inr [] \<rparr>"

text \<open>The library's answers when the connection to the given device succeeds.\<close>

definition connects :: "Device \<Rightarrow> connect_env" where
  "connects d =
     \<lparr> isConnected_r = Inr False, connectToDevice_r = Inr d, discover_r = None,
       services_r = Inr [battery] \<rparr>"

definition update :: char_update where
  "update = \<lparr> uuid_u = ''2a19'', value_u = Some ''ZA=='' \<rparr>"

definition at_ms :: "int \<Rightarrow> rat \<Rightarrow> clock" where
  "at_ms t r = \<lparr> now = t, random = r, localeTime = ''10:15:00'' \<rparr>"

definition event :: "int \<Rightarrow> NotificationData" where
  "event t =
     \<lparr> id_n = notificationId (at_ms t 0), serviceUUID = ''180f'', characteristicUUID = ''2a19'',
       value_n = ''ZA=='', timestamp = ''10:15:00'' \<rparr>"

text \<open>The component after it has mounted with the radio on and the permissions granted.\<close>

definition mounted :: state where
  "mounted = mount poweredOn_env"

text \<open>
  The mounted component while it scans, after one device was found; and after a connection
  attempt to the sensor has failed with a timeout, auto-reconnect being on.
\<close>

definition scanning :: state where
  "scanning = onScanResult (ScanDevice sensor) (startScan (render mounted) scan_ok mounted)"

definition reconnecting :: state where
  "reconnecting =
     connectToDevice (render mounted) (connectFails ''Connection timeout'') sensor mounted"

text \<open>From there, the user taps the beacon in the device list and the connection succeeds.\<close>

definition connectedToBeacon :: state where
  "connectedToBeacon = connectToDevice (render reconnecting) (connects beacon) beacon reconnecting"

text \<open>
  From \<open>reconnecting\<close>, instead: the user taps the sensor and the connection succeeds, which
  registers the disconnect listener; then the reconnect timer armed earlier fires, and its
  \<open>connectToDevice\<close> finds the sensor already connected.
\<close>

definition connectedToSensor :: state where
  "connectedToSensor = connectToDevice (render reconnecting) (connects sensor) sensor reconnecting"

definition shortCircuited :: state where
  "shortCircuited = fireTimer 0 alreadyConnected connectedToSensor"

text \<open>
  The mounted component after a scan that ended with a scan error; after the scan started
  again from there; after \<open>stopScan\<close> on that; and after one more start.
\<close>

definition scanFailed :: state where
  "scanFailed =
     onScanResult (ScanError (Error (Some ''Location services are disabled'')))
       (startScan (render mounted) scan_ok mounted)"

definition rescanning :: state where
  "rescanning = startScan (render scanFailed) scan_ok scanFailed"

definition stoppedAgain :: state where
  "stoppedAgain = stopScan rescanning"

definition thirdScan :: state where
  "thirdScan = startScan (render stoppedAgain) scan_ok stoppedAgain"

section \<open>Scanning: properties\<close>

lemma restrict_cleared [simp]:
  "m |` UNIV = m"
  "m |` (- {t}) = m(t := None)"
  by (simp_all add: restrict_map_def fun_eq_iff)

lemma stopScan_eq:
  "stopScan s =
     s\<lparr> adapterScanning := adapterScanning s \<and> \<not> bleManagerRef s, isScanning := False,
        timers := timers s |` (- set_option (scanTimeoutRef s)) \<rparr>"
  by (simp add: stopScan_def clearTimeout_def Let_def split: option.splits)

lemma stopScan_stopScan: "stopScan (stopScan s) = stopScan s"
  by (simp add: stopScan_eq split: option.splits)

lemma isScanning_stopScan: "\<not> isScanning (stopScan s)"
  by (simp add: stopScan_eq)

lemma stopScan_idle:
  assumes "\<not> isScanning s" and "\<not> adapterScanning s"
    and "\<forall>t. scanTimeoutRef s = Some t \<longrightarrow> \<not> pending t s"
  shows "stopScan s = s"
proof (cases "scanTimeoutRef s")
  case None
  with assms(1,2) show ?thesis by (simp add: stopScan_eq)
next
  case (Some t)
  with assms(3) have "timers s t = None" by (simp add: pending_def)
  then have "(timers s)(t := None) = timers s" by (simp add: fun_upd_idem_iff)
  with Some assms(1,2) show ?thesis by (simp add: stopScan_eq)
qed

lemma fireTimer_not_pending: "\<not> pending t s \<Longrightarrow> fireTimer t env s = s"
  by (simp add: fireTimer_def pending_def)

lemma startScan_proceeds:
  assumes "bleManagerRef s"
    and "state_r (prerequisites env) = Inr PoweredOn"
    and "permissionsGranted_c c \<or> granted_r (prerequisites env)"
    and "\<not> startDeviceScan_throws env"
  shows "startScan c env s =
           s\<lparr> isScanning := True, devices := [],
              permissionsGranted := (permissionsGranted s \<or> \<not> permissionsGranted_c c),
              adapterScanning := True, timers := (timers s)(nextTimer s \<mapsto> ScanTimeout),
              nextTimer := Suc (nextTimer s), scanTimeoutRef := Some (nextTimer s) \<rparr>"
  using assms by (auto simp: startScan_def checkPrerequisites_def setTimeout_def Let_def)

text \<open>
  What one \<open>stopScan\<close> does after a start. When \<open>startScan\<close> proceeds (manager
  present, radio on, permissions granted, the library call does not throw) it sets \<open>isScanning\<close> and arms the auto-stop timer. One
  \<open>stopScan\<close> after it leaves \<open>isScanning\<close> false, stops the library's scan and cancels that
  timer, so that the timer firing later changes nothing. A second \<open>stopScan\<close> changes
  nothing either, and neither does \<open>stopScan\<close> on any state \<open>s'\<close> that is not scanning
  and whose scan timer is not pending.
\<close>

lemma stopScan_after_startScan:
  assumes "bleManagerRef s"
    and "state_r (prerequisites env) = Inr PoweredOn"
    and "permissionsGranted_c c \<or> granted_r (prerequisites env)"
    and "\<not> startDeviceScan_throws env"
  shows "isScanning (startScan c env s) \<and> adapterScanning (startScan c env s) \<and>
         scanTimeoutRef (startScan c env s) = Some (nextTimer s) \<and>
         timers (startScan c env s) (nextTimer s) = Some ScanTimeout \<and>
         \<not> isScanning (stopScan (startScan c env s)) \<and>
         \<not> adapterScanning (stopScan (startScan c env s)) \<and>
         \<not> pending (nextTimer s) (stopScan (startScan c env s)) \<and>
         fireTimer (nextTimer s) cenv (stopScan (startScan c env s)) = stopScan (startScan c env s) \<and>
         stopScan (stopScan (startScan c env s)) = stopScan (startScan c env s) \<and>
         (\<not> isScanning s' \<and> \<not> adapterScanning s' \<and>
          (\<forall>t. scanTimeoutRef s' = Some t \<longrightarrow> \<not> pending t s') \<longrightarrow> stopScan s' = s')"
proof -
  note start = startScan_proceeds [OF assms]
  have np: "\<not> pending (nextTimer s) (stopScan (startScan c env s))"
    by (simp add: start stopScan_eq pending_def)
  have ad: "\<not> adapterScanning (stopScan (startScan c env s))"
    using assms(1) by (simp add: start stopScan_eq)
  have idle: "\<not> isScanning s' \<and> \<not> adapterScanning s' \<and>
          (\<forall>t. scanTimeoutRef s' = Some t \<longrightarrow> \<not> pending t s') \<longrightarrow> stopScan s' = s'"
    by (rule impI) (rule stopScan_idle, simp_all)
  have "isScanning (startScan c env s) \<and> adapterScanning (startScan c env s) \<and>
         scanTimeoutRef (startScan c env s) = Some (nextTimer s) \<and>
         timers (startScan c env s) (nextTimer s) = Some ScanTimeout \<and>
         \<not> isScanning (stopScan (startScan c env s)) \<and>
         \<not> adapterScanning (stopScan (startScan c env s)) \<and>
         \<not> pending (nextTimer s) (stopScan (startScan c env s)) \<and>
         fireTimer (nextTimer s) cenv (stopScan (startScan c env s)) = stopScan (startScan c env s) \<and>
         stopScan (stopScan (startScan c env s)) = stopScan (startScan c env s)"
    using np ad fireTimer_not_pending [OF np]
    by (simp add: stopScan_stopScan isScanning_stopScan) (simp add: start)
  with idle show ?thesis by blast
qed

lemma mounted_eq:
  "mounted =
     initial_state\<lparr> bleManagerRef := True, bluetoothState := PoweredOn,
       stateSubscriptionRef := Some (render initial_state), permissionsGranted := True,
       connectionStatus := Disconnected, statusTrace := [Disconnected, Disconnected] \<rparr>"
  by (simp add: mounted_def mount_def initializeBLE_def poweredOn_env_def stateListener_def
      updateConnectionStatusFromBluetoothState_def setConnectionStatus_def render_def
      initial_state_def)

lemma stopScan_after_startScan_witness:
  "isScanning (startScan (render mounted) scan_ok mounted) \<and>
   timers (startScan (render mounted) scan_ok mounted) 0 = Some ScanTimeout \<and>
   \<not> isScanning (stopScan (startScan (render mounted) scan_ok mounted)) \<and>
   \<not> pending 0 (stopScan (startScan (render mounted) scan_ok mounted)) \<and>
   stopScan (stopScan (startScan (render mounted) scan_ok mounted)) =
     stopScan (startScan (render mounted) scan_ok mounted)"
proof -
  have 1: "bleManagerRef mounted" and 2: "state_r (prerequisites scan_ok) = Inr PoweredOn"
    and 3: "permissionsGranted_c (render mounted) \<or> granted_r (prerequisites scan_ok)"
    and 4: "\<not> startDeviceScan_throws scan_ok" and 5: "nextTimer mounted = 0"
    by (simp_all add: mounted_eq scan_ok_def initial_state_def)
  from stopScan_after_startScan [OF 1 2 3 4] 5 show ?thesis by simp
qed

section \<open>Discovery: properties\<close>

lemma findIndex_ge: "- 1 \<le> findIndex P xs"
  by (induction xs) (auto simp: Let_def)

lemma findIndex_none: "findIndex P xs = - 1 \<longleftrightarrow> (\<forall>x \<in> set xs. \<not> P x)"
proof (induction xs)
  case Nil
  then show ?case by simp
next
  case (Cons x xs)
  with findIndex_ge [of P xs] show ?case by (auto simp: Let_def)
qed

lemma addDevice_new: "id_d d \<notin> id_d ` set xs \<Longrightarrow> addDevice d xs = xs @ [d]"
proof -
  assume "id_d d \<notin> id_d ` set xs"
  then have "\<forall>e \<in> set xs. \<not> id_d e = id_d d" by (auto simp: image_iff)
  then have "findIndex (\<lambda>e. id_d e = id_d d) xs = - 1" by (simp only: findIndex_none)
  then show ?thesis by (simp add: addDevice_def)
qed

lemma update_findIndex:
  "distinct (map f xs) \<Longrightarrow> f d \<in> f ` set xs \<Longrightarrow>
   xs[nat (findIndex (\<lambda>e. f e = f d) xs) := d] = map (\<lambda>e. if f e = f d then d else e) xs"
proof (induction xs)
  case Nil
  then show ?case by simp
next
  case (Cons x xs)
  show ?case
  proof (cases "f x = f d")
    case True
    with Cons.prems have "\<forall>e \<in> set xs. f e \<noteq> f d" by (auto simp: image_iff)
    then have "map (\<lambda>e. if f e = f d then d else e) xs = xs" by (simp add: map_idI)
    with True show ?thesis by simp
  next
    case False
    with Cons.prems have in_xs: "f d \<in> f ` set xs" and dist: "distinct (map f xs)" by auto
    from in_xs have "findIndex (\<lambda>e. f e = f d) xs \<noteq> - 1"
      by (auto simp: findIndex_none)
    with findIndex_ge [of "\<lambda>e. f e = f d" xs] have nonneg: "0 \<le> findIndex (\<lambda>e. f e = f d) xs"
      by linarith
    then have "nat (findIndex (\<lambda>e. f e = f d) xs + 1) = Suc (nat (findIndex (\<lambda>e. f e = f d) xs))"
      by simp
    with False nonneg Cons.IH [OF dist in_xs] show ?thesis
      by (simp add: Let_def)
  qed
qed

lemma addDevice_known:
  "distinct (map id_d xs) \<Longrightarrow> id_d d \<in> id_d ` set xs \<Longrightarrow>
   addDevice d xs = map (\<lambda>e. if id_d e = id_d d then d else e) xs"
proof -
  assume dist: "distinct (map id_d xs)" and known: "id_d d \<in> id_d ` set xs"
  from known have "findIndex (\<lambda>e. id_d e = id_d d) xs \<noteq> - 1"
    by (auto simp: findIndex_none image_iff)
  with update_findIndex [OF dist known] show ?thesis by (simp add: addDevice_def)
qed

lemma firstSightings_snoc:
  "firstSightings (is @ [i]) = (if i \<in> set is then firstSightings is else firstSightings is @ [i])"
  by (simp add: firstSightings_def)

lemma set_firstSightings: "set (firstSightings is) = set is"
  by (simp add: firstSightings_def)

lemma distinct_firstSightings: "distinct (firstSightings is)"
  by (simp add: firstSightings_def)

lemma length_firstSightings: "length (firstSightings is) = card (set is)"
  by (metis distinct_card distinct_firstSightings set_firstSightings)

lemma id_latest: "i \<in> id_d ` set ds \<Longrightarrow> id_d (latest ds i) = i"
proof -
  assume "i \<in> id_d ` set ds"
  then have ne: "filter (\<lambda>e. id_d e = i) ds \<noteq> []"
    by (auto simp: filter_empty_conv)
  from last_in_set [OF ne] show ?thesis by (simp add: latest_def)
qed

lemma latest_snoc: "latest (ds @ [d]) i = (if id_d d = i then d else latest ds i)"
  by (simp add: latest_def)

lemma fold_addDevice: "fold addDevice ds [] = map (latest ds) (firstSightings (map id_d ds))"
proof (induction ds rule: rev_induct)
  case Nil
  then show ?case by (simp add: firstSightings_def)
next
  case (snoc d ds)
  let ?r = "map (latest ds) (firstSightings (map id_d ds))"
  have ids: "map id_d ?r = firstSightings (map id_d ds)"
    by (auto intro!: map_idI simp: set_firstSightings id_latest)
  show ?case
  proof (cases "id_d d \<in> id_d ` set ds")
    case True
    from ids have "distinct (map id_d ?r)" by (simp only: distinct_firstSightings)
    moreover from True ids have "id_d d \<in> id_d ` set ?r"
      by (metis set_firstSightings set_map)
    ultimately have "addDevice d ?r = map (\<lambda>e. if id_d e = id_d d then d else e) ?r"
      by (rule addDevice_known)
    also have "\<dots> = map (latest (ds @ [d])) (firstSightings (map id_d ds))"
      by (auto simp: latest_snoc set_firstSightings id_latest)
    finally show ?thesis using True snoc.IH
      by (simp add: firstSightings_snoc)
  next
    case False
    with ids have "id_d d \<notin> id_d ` set ?r"
      by (metis set_firstSightings set_map)
    then have "addDevice d ?r = ?r @ [d]" by (rule addDevice_new)
    moreover from False have "map (latest (ds @ [d])) (firstSightings (map id_d ds)) = ?r"
      by (auto simp: latest_snoc set_firstSightings)
    ultimately show ?thesis using False snoc.IH
      by (simp add: firstSightings_snoc latest_snoc)
  qed
qed

lemma devices_fold_onScanResult:
  "devices (fold onScanResult (map ScanDevice ds) s) = fold addDevice ds (devices s)"
  by (induction ds arbitrary: s) simp_all

text \<open>
  C5. \<open>startScan\<close> empties the device list (line 240). After any sequence \<open>ds\<close> of
  discovery events delivered to the scan callback from there, the device list has one
  entry per distinct identity of \<open>ds\<close>, in the order in which the identities were first
  seen, and the entry of an identity is the most recent event that carries it.
\<close>

theorem devices_after_discoveries:
  "devices (fold onScanResult (map ScanDevice ds) (s\<lparr> devices := [] \<rparr>)) =
     map (latest ds) (firstSightings (map id_d ds)) \<and>
   length (devices (fold onScanResult (map ScanDevice ds) (s\<lparr> devices := [] \<rparr>))) =
     card (id_d ` set ds) \<and>
   distinct (map id_d (devices (fold onScanResult (map ScanDevice ds) (s\<lparr> devices := [] \<rparr>))))"
proof -
  have eq: "devices (fold onScanResult (map ScanDevice ds) (s\<lparr> devices := [] \<rparr>)) =
              map (latest ds) (firstSightings (map id_d ds))"
    by (simp add: devices_fold_onScanResult fold_addDevice)
  have ids: "map id_d (map (latest ds) (firstSightings (map id_d ds))) = firstSightings (map id_d ds)"
    by (auto intro!: map_idI simp: set_firstSightings id_latest)
  have len: "length (map (latest ds) (firstSightings (map id_d ds))) = card (id_d ` set ds)"
    by (simp add: length_firstSightings)
  have dist: "distinct (map id_d (map (latest ds) (firstSightings (map id_d ds))))"
    by (simp only: ids distinct_firstSightings)
  from eq len dist show ?thesis by simp
qed

theorem devices_after_discoveries_witness:
  "devices (fold onScanResult
              (map ScanDevice [sensor, beacon, sensor\<lparr> rssi := Some (- 48) \<rparr>])
              (mounted\<lparr> devices := [] \<rparr>)) =
     [sensor\<lparr> rssi := Some (- 48) \<rparr>, beacon]"
  using devices_after_discoveries [of "[sensor, beacon, sensor\<lparr> rssi := Some (- 48) \<rparr>]" mounted]
  by (simp add: latest_def firstSightings_def sensor_def beacon_def)

section \<open>Subscriptions: properties\<close>

lemma register_append:
  "register m n (ps @ qs) = register (register m n ps) (n + length ps) qs"
  by (induction ps arbitrary: m n) simp_all

lemma register_below: "h < n \<Longrightarrow> register m n ps h = m h"
  by (induction ps arbitrary: m n) simp_all

lemma subscribeCharacteristics_append:
  "subscribeCharacteristics su (chs @ chs') (s, n, att) =
     subscribeCharacteristics su chs' (subscribeCharacteristics su chs (s, n, att))"
  by (induction chs arbitrary: s n att) (simp_all add: addSubscription_def)

lemma subscribeCharacteristics_eq:
  "subscribeCharacteristics su chs (s, n, att) =
     (s\<lparr> subscriptions :=
           register (subscriptions s) (nextSubscription s)
             (map (Pair su) (filter (\<lambda>ch. \<not> monitor_throws ch) (filter isNotifiable chs))),
         subscriptionsRef :=
           subscriptionsRef s @
             [nextSubscription s ..<
                nextSubscription s + length (filter (\<lambda>ch. \<not> monitor_throws ch) (filter isNotifiable chs))],
         nextSubscription :=
           nextSubscription s + length (filter (\<lambda>ch. \<not> monitor_throws ch) (filter isNotifiable chs)) \<rparr>,
      n + length (filter (\<lambda>ch. \<not> monitor_throws ch) (filter isNotifiable chs)),
      att @ map uuid_c (filter isNotifiable chs))"
proof (induction chs rule: rev_induct)
  case Nil
  then show ?case by simp
next
  case (snoc ch chs)
  show ?case
    by (simp add: subscribeCharacteristics_append snoc.IH addSubscription_def register_append)
qed


lemma subscribeServices_append:
  "subscribeServices (svs @ svs') acc = subscribeServices svs' (subscribeServices svs acc)"
  by (induction svs arbitrary: acc) simp_all

lemma notifiable_snoc:
  "notifiable (svs @ [sv]) =
     notifiable svs @
       (case characteristics_r sv of
          Inl e \<Rightarrow> []
        | Inr chs \<Rightarrow> map (Pair (uuid_s sv)) (filter isNotifiable chs))"
  by (simp add: notifiable_def)

lemma upt_split: "[a..<a + (k + l)] = [a..<a + k] @ [a + k..<a + k + l]"
  using upt_add_eq_append [of a "a + k" l] by (simp add: add.assoc)

lemma subscribeServices_eq:
  "subscribeServices svs (s, n, att) =
     (s\<lparr> subscriptions := register (subscriptions s) (nextSubscription s) (established svs),
         subscriptionsRef :=
           subscriptionsRef s @
             [nextSubscription s ..< nextSubscription s + length (established svs)],
         nextSubscription := nextSubscription s + length (established svs) \<rparr>,
      n + length (established svs),
      att @ map (\<lambda>p. uuid_c (snd p)) (notifiable svs))"
proof (induction svs rule: rev_induct)
  case Nil
  then show ?case by (simp add: established_def notifiable_def)
next
  case (snoc sv svs)
  show ?case
  proof (cases "characteristics_r sv")
    case (Inl e)
    then show ?thesis
      by (simp add: subscribeServices_append snoc.IH established_def notifiable_snoc)
  next
    case (Inr chs)
    then show ?thesis
      by (simp add: subscribeServices_append snoc.IH established_def notifiable_snoc
          subscribeCharacteristics_eq register_append filter_map comp_def upt_split)
  qed
qed


lemma subscribeToCharacteristics_eq:
  "subscribeToCharacteristics (Inr services) s =
     (s\<lparr> subscriptions := register (subscriptions s) (nextSubscription s) (established services),
         subscriptionsRef :=
           subscriptionsRef s @
             [nextSubscription s ..< nextSubscription s + length (established services)],
         nextSubscription := nextSubscription s + length (established services) \<rparr>,
      Some (length (established services)),
      map (\<lambda>p. uuid_c (snd p)) (notifiable services))"
  by (simp add: subscribeToCharacteristics_def subscribeServices_eq)

lemma register_new:
  "n \<le> h \<Longrightarrow> h < n + length ps \<Longrightarrow> \<exists>su cu. register m n ps h = Some (CharacteristicMonitor su cu)"
proof (induction ps arbitrary: m n)
  case Nil
  then show ?case by simp
next
  case (Cons p ps)
  show ?case
  proof (cases "h = n")
    case True
    then show ?thesis by (simp add: register_below)
  next
    case False
    with Cons.prems have "Suc n \<le> h" and "h < Suc n + length ps" by simp_all
    from Cons.IH [OF this] show ?thesis by simp
  qed
qed

lemma disconnectMonitors_register:
  "disconnectMonitors i
     (s\<lparr> subscriptions := register (subscriptions s) (nextSubscription s) ps,
         subscriptionsRef := r,
         nextSubscription := nextSubscription s + length ps \<rparr>) = disconnectMonitors i s"
proof -
  have old: "filter (\<lambda>h. case register (subscriptions s) (nextSubscription s) ps h of
                           Some (DisconnectMonitor c d) \<Rightarrow> id_d d = i | _ \<Rightarrow> False)
               [0..<nextSubscription s] =
             filter (\<lambda>h. case subscriptions s h of
                           Some (DisconnectMonitor c d) \<Rightarrow> id_d d = i | _ \<Rightarrow> False)
               [0..<nextSubscription s]"
    by (rule filter_cong) (simp_all add: register_below)
  have new: "filter (\<lambda>h. case register (subscriptions s) (nextSubscription s) ps h of
                           Some (DisconnectMonitor c d) \<Rightarrow> id_d d = i | _ \<Rightarrow> False)
               [nextSubscription s..<nextSubscription s + length ps] = []"
  proof -
    have "\<forall>h \<in> set [nextSubscription s..<nextSubscription s + length ps].
            \<not> (case register (subscriptions s) (nextSubscription s) ps h of
                  Some (DisconnectMonitor c d) \<Rightarrow> id_d d = i | _ \<Rightarrow> False)"
    proof
      fix h assume "h \<in> set [nextSubscription s..<nextSubscription s + length ps]"
      then have "nextSubscription s \<le> h" and "h < nextSubscription s + length ps" by simp_all
      from register_new [OF this] obtain su cu where
        "register (subscriptions s) (nextSubscription s) ps h = Some (CharacteristicMonitor su cu)"
        by blast
      then show "\<not> (case register (subscriptions s) (nextSubscription s) ps h of
                       Some (DisconnectMonitor c d) \<Rightarrow> id_d d = i | _ \<Rightarrow> False)"
        by simp
    qed
    then show ?thesis by (simp only: filter_empty_conv)
  qed
  have "[0..<nextSubscription s + length ps] =
          [0..<nextSubscription s] @ [nextSubscription s..<nextSubscription s + length ps]"
    using upt_add_eq_append [of 0 "nextSubscription s" "length ps"] by simp
  with old new show ?thesis by (simp add: disconnectMonitors_def)
qed

lemma disconnectMonitors_subscribeToCharacteristics:
  "disconnectMonitors i (fst (subscribeToCharacteristics r s)) = disconnectMonitors i s"
proof (cases r)
  case (Inl e)
  then show ?thesis by (simp add: subscribeToCharacteristics_def)
next
  case (Inr services)
  then show ?thesis by (simp add: subscribeToCharacteristics_eq disconnectMonitors_register)
qed

lemma deliverDisconnected_none:
  "\<forall>h \<in> set hs. \<not> (case subscriptions s h of
                       Some (DisconnectMonitor c d) \<Rightarrow> id_d d = i | _ \<Rightarrow> False) \<Longrightarrow>
   deliverDisconnected hs i err dd s = s"
  by (induction hs) (auto split: option.splits subscription.splits)

lemma onDeviceDisconnected_unmonitored:
  "disconnectMonitors i s = [] \<Longrightarrow> onDeviceDisconnected i err dd s = s"
  by (simp add: onDeviceDisconnected_def disconnectMonitors_def filter_empty_conv
      deliverDisconnected_none)

lemma disconnectMonitors_cong:
  "subscriptions s' = subscriptions s \<Longrightarrow> nextSubscription s' = nextSubscription s \<Longrightarrow>
   disconnectMonitors i s' = disconnectMonitors i s"
  by (simp add: disconnectMonitors_def)

lemma connectToDevice_alreadyConnected:
  assumes "bleManagerRef s" and "isConnected_r env = Inr True"
  shows "connectToDevice c env device s =
           fst (subscribeToCharacteristics (services_r env)
                  ((if isScanning_c c then stopScan s else s)
                     \<lparr> connectedDevice := Some device, isConnected := True,
                        connectionStatus := Connected,
                        statusTrace := statusTrace s @ [Connecting, Connected] \<rparr>))"
  using assms
  by (simp add: connectToDevice_def setConnectionStatus_def stopScan_eq Let_def
      split: option.splits)

text \<open>
  C7. \<open>subscribeToCharacteristics\<close> calls \<open>monitor\<close> on every notifiable characteristic
  of every service whose enumeration succeeds, whether or not \<open>monitor\<close> threw on an
  earlier one; the count it logs is the number of characteristics on which \<open>monitor\<close> did
  not throw, and exactly those get a live subscription whose handle is appended to
  \<open>subscriptionsRef\<close>. Nothing else of the state changes.
\<close>

theorem subscribeToCharacteristics_partial_success:
  "subscribeToCharacteristics (Inr services) s =
     (s\<lparr> subscriptions := register (subscriptions s) (nextSubscription s) (established services),
         subscriptionsRef :=
           subscriptionsRef s @
             [nextSubscription s ..< nextSubscription s + length (established services)],
         nextSubscription := nextSubscription s + length (established services) \<rparr>,
      Some (length (filter (\<lambda>p. \<not> monitor_throws (snd p)) (notifiable services))),
      map (\<lambda>p. uuid_c (snd p)) (notifiable services))"
  by (simp add: subscribeToCharacteristics_eq) (simp add: established_def)

theorem subscribeToCharacteristics_partial_success_witness:
  "snd (subscribeToCharacteristics (Inr [heartRate, broken, battery]) mounted) =
     (Some 3, [''2a37'', ''2a39'', ''2a3a'', ''2a19'']) \<and>
   subscriptionsRef (fst (subscribeToCharacteristics (Inr [heartRate, broken, battery]) mounted)) =
     [0, 1, 2]"
  using subscribeToCharacteristics_partial_success [of "[heartRate, broken, battery]" mounted]
  by (simp add: established_def notifiable_def heartRate_def broken_def battery_def mounted_eq
      initial_state_def upt_rec)

lemma register_old: "map (register m n ps) [0..<n] = map m [0..<n]"
  by (simp add: register_below)

lemma register_fresh:
  "map (register m n ps) [n..<n + length ps] =
     map (\<lambda>p. Some (CharacteristicMonitor (fst p) (uuid_c (snd p)))) ps"
proof (induction ps arbitrary: m n)
  case Nil
  then show ?case by simp
next
  case (Cons p ps)
  have split: "[n..<n + length (p # ps)] = n # [Suc n..<Suc n + length ps]"
    by (subst upt_rec) simp
  have hd: "register (m(n \<mapsto> CharacteristicMonitor (fst p) (uuid_c (snd p)))) (Suc n) ps n =
              Some (CharacteristicMonitor (fst p) (uuid_c (snd p)))"
    by (simp add: register_below)
  have tl: "map (register (m(n \<mapsto> CharacteristicMonitor (fst p) (uuid_c (snd p)))) (Suc n) ps)
              [Suc n..<Suc n + length ps] =
            map (\<lambda>p. Some (CharacteristicMonitor (fst p) (uuid_c (snd p)))) ps"
    by (rule Cons.IH)
  show ?case
    unfolding split by (simp only: list.map register.simps hd tl)
qed

lemma subscriptions_alreadyConnected:
  assumes "bleManagerRef s" and "isConnected_r env = Inr True"
  shows "subscriptions (connectToDevice c env device s) =
           (case services_r env of
              Inl e \<Rightarrow> subscriptions s
            | Inr services \<Rightarrow> register (subscriptions s) (nextSubscription s) (established services))"
    and "nextTimer (connectToDevice c env device s) = nextTimer s"
    and "nextSubscription (connectToDevice c env device s) =
           (case services_r env of
              Inl e \<Rightarrow> nextSubscription s
            | Inr services \<Rightarrow> nextSubscription s + length (established services))"
proof -
  note eq = connectToDevice_alreadyConnected [OF assms, of c device]
  show "subscriptions (connectToDevice c env device s) =
           (case services_r env of
              Inl e \<Rightarrow> subscriptions s
            | Inr services \<Rightarrow> register (subscriptions s) (nextSubscription s) (established services))"
  proof (cases "services_r env")
    case (Inl e)
    then show ?thesis by (simp add: eq subscribeToCharacteristics_def stopScan_eq)
  next
    case (Inr services)
    then show ?thesis by (simp add: eq subscribeToCharacteristics_eq stopScan_eq)
  qed
  show "nextTimer (connectToDevice c env device s) = nextTimer s"
  proof (cases "services_r env")
    case (Inl e)
    then show ?thesis by (simp add: eq subscribeToCharacteristics_def stopScan_eq)
  next
    case (Inr services)
    then show ?thesis by (simp add: eq subscribeToCharacteristics_eq stopScan_eq)
  qed
  show "nextSubscription (connectToDevice c env device s) =
           (case services_r env of
              Inl e \<Rightarrow> nextSubscription s
            | Inr services \<Rightarrow> nextSubscription s + length (established services))"
  proof (cases "services_r env")
    case (Inl e)
    then show ?thesis by (simp add: eq subscribeToCharacteristics_def stopScan_eq)
  next
    case (Inr services)
    then show ?thesis by (simp add: eq subscribeToCharacteristics_eq stopScan_eq)
  qed
qed

lemma live_alreadyConnected:
  assumes "bleManagerRef s" and "isConnected_r env = Inr True"
  shows "map (subscriptions (connectToDevice c env device s)) [0..<nextSubscription s] =
           map (subscriptions s) [0..<nextSubscription s]"
    and "services_r env = Inr services \<Longrightarrow>
         map (subscriptions (connectToDevice c env device s))
             [nextSubscription s..<nextSubscription s + length (established services)] =
           map (\<lambda>p. Some (CharacteristicMonitor (fst p) (uuid_c (snd p)))) (established services)"
proof -
  show "map (subscriptions (connectToDevice c env device s)) [0..<nextSubscription s] =
           map (subscriptions s) [0..<nextSubscription s]"
    by (cases "services_r env")
      (simp_all add: subscriptions_alreadyConnected(1) [OF assms] register_below)
  show "map (subscriptions (connectToDevice c env device s))
             [nextSubscription s..<nextSubscription s + length (established services)] =
           map (\<lambda>p. Some (CharacteristicMonitor (fst p) (uuid_c (snd p)))) (established services)"
    if "services_r env = Inr services"
    using that by (simp only: subscriptions_alreadyConnected(1) [OF assms] sum.case register_fresh)
qed

lemma disconnectMonitors_alreadyConnected:
  assumes "bleManagerRef s" and "isConnected_r env = Inr True"
  shows "disconnectMonitors j (connectToDevice c env device s) = disconnectMonitors j s"
proof -
  note eq = connectToDevice_alreadyConnected [OF assms, of c device]
  have "disconnectMonitors j (connectToDevice c env device s) =
          disconnectMonitors j
            ((if isScanning_c c then stopScan s else s)
               \<lparr> connectedDevice := Some device, isConnected := True,
                  connectionStatus := Connected,
                  statusTrace := statusTrace s @ [Connecting, Connected] \<rparr>)"
    by (simp only: eq disconnectMonitors_subscribeToCharacteristics)
  also have "\<dots> = disconnectMonitors j s"
    by (rule disconnectMonitors_cong) (simp_all add: stopScan_eq)
  finally show ?thesis .
qed

lemma alreadyConnected_fields:
  assumes "bleManagerRef s" and "isConnected_r env = Inr True"
  shows "connectionStatus (connectToDevice c env device s) = Connected \<and>
         connectedDevice (connectToDevice c env device s) = Some device \<and>
         isConnected (connectToDevice c env device s) \<and>
         subscriptionsRef (connectToDevice c env device s) =
           subscriptionsRef s @
             (case services_r env of
                Inl e \<Rightarrow> []
              | Inr services \<Rightarrow>
                  [nextSubscription s ..< nextSubscription s + length (established services)])"
proof (cases "services_r env")
  case (Inl e)
  then show ?thesis
    by (simp add: connectToDevice_alreadyConnected [OF assms] subscribeToCharacteristics_def
        stopScan_eq)
next
  case (Inr services)
  then show ?thesis
    by (simp add: connectToDevice_alreadyConnected [OF assms] subscribeToCharacteristics_eq
        stopScan_eq)
qed

text \<open>
  C10 (as amended). When \<open>device.isConnected()\<close> answers true, \<open>connectToDevice\<close> goes
  to \<open>Connected\<close> with that device and subscribes to its characteristics: the
  subscriptions that were live stay as they were, and a monitor is live under a new handle,
  kept in \<open>subscriptionsRef\<close>, for each notifiable characteristic on which \<open>monitor\<close> did
  not throw. The branch registers no disconnect listener: those live afterwards are those
  that were live before. So when none is live for the device (none was left by an earlier
  connection to it), a peripheral-initiated disconnect of it afterwards changes nothing: no
  handle is released, the status stays \<open>Connected\<close>, no reconnect timer is armed.
\<close>

theorem alreadyConnected_unmonitored:
  assumes "bleManagerRef s" and "isConnected_r env = Inr True"
  shows "connectionStatus (connectToDevice c env device s) = Connected \<and>
         connectedDevice (connectToDevice c env device s) = Some device \<and>
         isConnected (connectToDevice c env device s) \<and>
         subscriptionsRef (connectToDevice c env device s) =
           subscriptionsRef s @
             (case services_r env of
                Inl e \<Rightarrow> []
              | Inr services \<Rightarrow>
                  [nextSubscription s ..< nextSubscription s + length (established services)]) \<and>
         map (subscriptions (connectToDevice c env device s)) [0..<nextSubscription s] =
           map (subscriptions s) [0..<nextSubscription s] \<and>
         (case services_r env of
            Inl e \<Rightarrow> nextSubscription (connectToDevice c env device s) = nextSubscription s
          | Inr services \<Rightarrow>
              map (subscriptions (connectToDevice c env device s))
                  [nextSubscription s ..< nextSubscription s + length (established services)] =
                map (\<lambda>p. Some (CharacteristicMonitor (fst p) (uuid_c (snd p))))
                  (established services)) \<and>
         disconnectMonitors i (connectToDevice c env device s) = disconnectMonitors i s \<and>
         (disconnectMonitors (id_d device) s = [] \<longrightarrow>
            onDeviceDisconnected (id_d device) err dd (connectToDevice c env device s) =
              connectToDevice c env device s)"
proof -
  note eq = connectToDevice_alreadyConnected [OF assms, of c device]
  note mon = disconnectMonitors_alreadyConnected [OF assms, of _ c device]
  have fields: "connectionStatus (connectToDevice c env device s) = Connected \<and>
         connectedDevice (connectToDevice c env device s) = Some device \<and>
         isConnected (connectToDevice c env device s) \<and>
         subscriptionsRef (connectToDevice c env device s) =
           subscriptionsRef s @
             (case services_r env of
                Inl e \<Rightarrow> []
              | Inr services \<Rightarrow>
                  [nextSubscription s ..< nextSubscription s + length (established services)])"
  proof (cases "services_r env")
    case (Inl e)
    then show ?thesis by (simp add: eq subscribeToCharacteristics_def stopScan_eq)
  next
    case (Inr services)
    then show ?thesis by (simp add: eq subscribeToCharacteristics_eq stopScan_eq)
  qed
  note old = live_alreadyConnected(1) [OF assms, of c device]
  have new: "case services_r env of
            Inl e \<Rightarrow> nextSubscription (connectToDevice c env device s) = nextSubscription s
          | Inr services \<Rightarrow>
              map (subscriptions (connectToDevice c env device s))
                  [nextSubscription s ..< nextSubscription s + length (established services)] =
                map (\<lambda>p. Some (CharacteristicMonitor (fst p) (uuid_c (snd p))))
                  (established services)"
  proof (cases "services_r env")
    case (Inl e)
    then show ?thesis by (simp add: subscriptions_alreadyConnected(3) [OF assms])
  next
    case (Inr services)
    with live_alreadyConnected(2) [OF assms Inr, of c device] show ?thesis by simp
  qed
  have quiet: "disconnectMonitors (id_d device) s = [] \<longrightarrow>
            onDeviceDisconnected (id_d device) err dd (connectToDevice c env device s) =
              connectToDevice c env device s"
    by (simp add: mon onDeviceDisconnected_unmonitored)
  from fields old new mon quiet show ?thesis by blast
qed

theorem alreadyConnected_unmonitored_witness:
  "connectionStatus (connectToDevice (render mounted) alreadyConnected sensor mounted) = Connected \<and>
   subscriptionsRef (connectToDevice (render mounted) alreadyConnected sensor mounted) = [0, 1, 2] \<and>
   map (subscriptions (connectToDevice (render mounted) alreadyConnected sensor mounted)) [0, 1, 2] =
     [Some (CharacteristicMonitor ''180d'' ''2a37''), Some (CharacteristicMonitor ''180d'' ''2a3a''),
      Some (CharacteristicMonitor ''180f'' ''2a19'')] \<and>
   onDeviceDisconnected ''AA:01'' None None
       (connectToDevice (render mounted) alreadyConnected sensor mounted) =
     connectToDevice (render mounted) alreadyConnected sensor mounted"
proof -
  have 1: "bleManagerRef mounted" and 2: "isConnected_r alreadyConnected = Inr True"
    and 3: "disconnectMonitors (id_d sensor) mounted = []"
    and 4: "id_d sensor = ''AA:01''"
    and 5: "subscriptionsRef mounted = []" and 6: "nextSubscription mounted = 0"
    and 7: "services_r alreadyConnected = Inr [heartRate, broken, battery]"
    and 8: "established [heartRate, broken, battery] =
              [(''180d'', \<lparr> uuid_c = ''2a37'', isNotifiable = True, monitor_throws = False \<rparr>),
               (''180d'', \<lparr> uuid_c = ''2a3a'', isNotifiable = True, monitor_throws = False \<rparr>),
               (''180f'', \<lparr> uuid_c = ''2a19'', isNotifiable = True, monitor_throws = False \<rparr>)]"
    by (simp_all add: mounted_eq initial_state_def alreadyConnected_def disconnectMonitors_def
        sensor_def established_def notifiable_def heartRate_def broken_def battery_def)
  from alreadyConnected_unmonitored
         [OF 1 2, of "render mounted" sensor "''AA:01''" None None] 3 4 5 6 7 8
  show ?thesis by (simp add: upt_rec numeral_2_eq_2)
qed

section \<open>Disconnecting: properties\<close>

lemma fold_clear:
  "fold (\<lambda>h m. m(h := None)) hs m = m |` (- set hs)"
  by (induction hs arbitrary: m) (auto simp: restrict_map_def fun_eq_iff)

lemma fold_remove:
  "fold remove hs s = s\<lparr> subscriptions := subscriptions s |` (- set hs) \<rparr>"
proof -
  have "fold remove hs s = s\<lparr> subscriptions := fold (\<lambda>h m. m(h := None)) hs (subscriptions s) \<rparr>"
    by (induction hs arbitrary: s) (simp_all add: remove_def)
  then show ?thesis by (simp only: fold_clear)
qed

lemma clearSubscriptions_eq:
  "clearSubscriptions s =
     s\<lparr> subscriptions := subscriptions s |` (- set (subscriptionsRef s)), subscriptionsRef := [] \<rparr>"
  unfolding clearSubscriptions_def by (subst fold_remove) simp

lemma disconnect_noop: "\<not> bleManagerRef s \<or> connectedDevice_c c = None \<Longrightarrow> disconnect c r s = s"
  by (auto simp: disconnect_def)


lemma disconnect_eq:
  assumes "bleManagerRef s" and "connectedDevice_c c \<noteq> None"
  shows "disconnect c None s =
           s\<lparr> timers := timers s |` (- set_option (reconnectTimeoutRef s)),
              subscriptions := subscriptions s |` (- set (subscriptionsRef s)),
              subscriptionsRef := [], connectedDevice := None, isConnected := False,
              connectionStatus := Disconnected, statusTrace := statusTrace s @ [Disconnected],
              notifications := [] \<rparr>"
    and "disconnect c (Some e) s =
           s\<lparr> timers := timers s |` (- set_option (reconnectTimeoutRef s)),
              subscriptions := subscriptions s |` (- set (subscriptionsRef s)),
              subscriptionsRef := [] \<rparr>"
proof -
  from assms(2) obtain d where d: "connectedDevice_c c = Some d" by blast
  show "disconnect c None s =
           s\<lparr> timers := timers s |` (- set_option (reconnectTimeoutRef s)),
              subscriptions := subscriptions s |` (- set (subscriptionsRef s)),
              subscriptionsRef := [], connectedDevice := None, isConnected := False,
              connectionStatus := Disconnected, statusTrace := statusTrace s @ [Disconnected],
              notifications := [] \<rparr>"
  proof (cases "reconnectTimeoutRef s")
    case None
    with assms(1) d show ?thesis
      by (simp add: disconnect_def clearSubscriptions_eq setConnectionStatus_def Let_def)
  next
    case (Some t)
    with assms(1) d show ?thesis
      by (simp add: disconnect_def clearSubscriptions_eq clearTimeout_def setConnectionStatus_def
          Let_def)
  qed
  show "disconnect c (Some e) s =
           s\<lparr> timers := timers s |` (- set_option (reconnectTimeoutRef s)),
              subscriptions := subscriptions s |` (- set (subscriptionsRef s)),
              subscriptionsRef := [] \<rparr>"
  proof (cases "reconnectTimeoutRef s")
    case None
    with assms(1) d show ?thesis
      by (simp add: disconnect_def clearSubscriptions_eq Let_def)
  next
    case (Some t)
    with assms(1) d show ?thesis
      by (simp add: disconnect_def clearSubscriptions_eq clearTimeout_def Let_def)
  qed
qed

text \<open>
  C2 (as amended). \<open>disconnect\<close> returns at once, changing nothing, when there is no
  manager or when the render it belongs to has no connected device: so also in the
  states \<open>Connecting\<close>, \<open>Failed\<close> and \<open>Reconnecting\<close>, and when already disconnected.
  Otherwise it cancels the reconnect timer the ref holds, removes every subscription
  whose handle is in \<open>subscriptionsRef\<close> and empties the ref; and when
  \<open>cancelDeviceConnection\<close> resolves (\<open>r = None\<close>) it empties the notification log and
  goes to \<open>Disconnected\<close> with no connected device, after which a further \<open>disconnect\<close>
  changes nothing.
\<close>

theorem disconnect_connected_session:
  "(\<not> bleManagerRef s \<or> connectedDevice_c c = None \<longrightarrow> disconnect c r s = s) \<and>
   (bleManagerRef s \<and> connectedDevice_c c \<noteq> None \<longrightarrow>
      (\<forall>t. reconnectTimeoutRef s = Some t \<longrightarrow> \<not> pending t (disconnect c r s)) \<and>
      subscriptionsRef (disconnect c r s) = [] \<and>
      dom (subscriptions (disconnect c r s)) = dom (subscriptions s) - set (subscriptionsRef s) \<and>
      (r = None \<longrightarrow>
         notifications (disconnect c r s) = [] \<and>
         connectionStatus (disconnect c r s) = Disconnected \<and>
         connectedDevice (disconnect c r s) = None \<and>
         \<not> isConnected (disconnect c r s) \<and>
         disconnect (render (disconnect c r s)) r' (disconnect c r s) = disconnect c r s))"
proof (intro conjI impI)
  assume "\<not> bleManagerRef s \<or> connectedDevice_c c = None"
  then show "disconnect c r s = s" by (rule disconnect_noop)
next
  assume a: "bleManagerRef s \<and> connectedDevice_c c \<noteq> None"
  then have b: "bleManagerRef s" and n: "connectedDevice_c c \<noteq> None" by simp_all
  note eq = disconnect_eq [OF b n]
  show "\<forall>t. reconnectTimeoutRef s = Some t \<longrightarrow> \<not> pending t (disconnect c r s)"
    by (cases r) (simp_all add: eq pending_def)
  show "subscriptionsRef (disconnect c r s) = []"
    by (cases r) (simp_all add: eq)
  show "dom (subscriptions (disconnect c r s)) = dom (subscriptions s) - set (subscriptionsRef s)"
    by (cases r) (auto simp: eq)
next
  assume a: "bleManagerRef s \<and> connectedDevice_c c \<noteq> None" and r: "r = None"
  then have b: "bleManagerRef s" and n: "connectedDevice_c c \<noteq> None" by simp_all
  note eq = disconnect_eq(1) [OF b n]
  show "notifications (disconnect c r s) = []" by (simp add: r eq)
  show "connectionStatus (disconnect c r s) = Disconnected" by (simp add: r eq)
  show "connectedDevice (disconnect c r s) = None" by (simp add: r eq)
  show "\<not> isConnected (disconnect c r s)" by (simp add: r eq)
  show "disconnect (render (disconnect c r s)) r' (disconnect c r s) = disconnect c r s"
    by (rule disconnect_noop) (simp add: r eq render_def)
qed

section \<open>Failed connection attempts: properties\<close>

lemma connectFailed_eq:
  "connectFailed c device e s =
     (if autoReconnect_c c \<and> \<not> includes_str (classifiedMessage (rawMessage e)) ''cancelled''
      then s\<lparr> connectionStatus := Reconnecting,
              statusTrace := statusTrace s @ [ConnectionFailed, Reconnecting],
              connectedDevice := None, isConnected := False,
              timers := (timers s)(nextTimer s \<mapsto> ReconnectTimeout c device),
              nextTimer := Suc (nextTimer s), reconnectTimeoutRef := Some (nextTimer s) \<rparr>
      else s\<lparr> connectionStatus := ConnectionFailed,
              statusTrace := statusTrace s @ [ConnectionFailed],
              connectedDevice := None, isConnected := False \<rparr>)"
  by (simp add: connectFailed_def scheduleReconnect_def setTimeout_def setConnectionStatus_def
      Let_def)

lemma connectToDevice_fails:
  assumes "bleManagerRef s" and "failure env = Some e"
  shows "connectToDevice c env device s =
           connectFailed c device e
             (if isScanning_c c then stopScan (setConnectionStatus Connecting s)
              else setConnectionStatus Connecting s)"
  using assms
  by (auto simp: connectToDevice_def failure_def Let_def
      split: sum.splits option.splits if_splits)

lemma timeout_text_not_cancelled: "\<not> includes_str ''Connection timeout. Make sure the device is nearby and in pairing mode.'' ''cancelled''"
  by simp
lemma notFound_text_not_cancelled: "\<not> includes_str ''Device not found. It may have moved out of range.'' ''cancelled''"
  by simp
lemma disconnected_text_not_cancelled: "\<not> includes_str ''Device disconnected during connection attempt.'' ''cancelled''"
  by simp
lemma cancelled_text_cancelled: "includes_str ''Connection was cancelled.'' ''cancelled''"
  by simp
lemma cancelled_in_classifiedMessage:
  "includes_str (classifiedMessage m) ''cancelled'' =
     (case classify m of
        OperationCancelled \<Rightarrow> True
      | Unclassified \<Rightarrow> includes_str m ''cancelled''
      | _ \<Rightarrow> False)"
  by (simp add: classifiedMessage_def classify_def timeout_text_not_cancelled notFound_text_not_cancelled
      disconnected_text_not_cancelled cancelled_text_cancelled del: includes_str.simps)

section \<open>Connection attempts on concrete states\<close>

lemma subscribeToCharacteristics_frame:
  obtains X Y Z where
    "fst (subscribeToCharacteristics r s) =
       s\<lparr> subscriptions := X, subscriptionsRef := Y, nextSubscription := Z \<rparr>"
proof (cases r)
  case (Inl e)
  have "fst (subscribeToCharacteristics r s) =
          s\<lparr> subscriptions := subscriptions s, subscriptionsRef := subscriptionsRef s,
             nextSubscription := nextSubscription s \<rparr>"
    by (simp add: Inl subscribeToCharacteristics_def)
  then show ?thesis by (rule that)
next
  case (Inr services)
  show ?thesis by (rule that) (simp add: Inr subscribeToCharacteristics_eq)
qed

lemma connectToDevice_connects:
  assumes "bleManagerRef s" and "isConnected_r env = Inr False"
    and "connectToDevice_r env = Inr d" and "discover_r env = None"
  shows "connectToDevice c env device s =
           fst (subscribeToCharacteristics (services_r env)
                  (setupConnectionMonitoring c d
                     (setConnectionStatus Connected
                        ((if isScanning_c c then stopScan (setConnectionStatus Connecting s)
                          else setConnectionStatus Connecting s)
                           \<lparr> connectedDevice := Some d, isConnected := True \<rparr>))))"
  using assms by (simp add: connectToDevice_def Let_def)

lemma connectToDevice_connects_fields:
  assumes "bleManagerRef s" and "isConnected_r env = Inr False"
    and "connectToDevice_r env = Inr d" and "discover_r env = None"
  shows "connectedDevice (connectToDevice c env device s) = Some d"
    and "isConnected (connectToDevice c env device s)"
    and "connectionStatus (connectToDevice c env device s) = Connected"
    and "bleManagerRef (connectToDevice c env device s)"
    and "timers (connectToDevice c env device s) =
           timers (if isScanning_c c then stopScan s else s)"
    and "nextTimer (connectToDevice c env device s) = nextTimer s"
    and "reconnectTimeoutRef (connectToDevice c env device s) = reconnectTimeoutRef s"
    and "scanTimeoutRef (connectToDevice c env device s) = scanTimeoutRef s"
    and "notifications (connectToDevice c env device s) = notifications s"
proof -
  let ?s1 = "setupConnectionMonitoring c d
               (setConnectionStatus Connected
                  ((if isScanning_c c then stopScan (setConnectionStatus Connecting s)
                    else setConnectionStatus Connecting s)
                     \<lparr> connectedDevice := Some d, isConnected := True \<rparr>))"
  obtain X Y Z where
    eq: "connectToDevice c env device s =
           ?s1\<lparr> subscriptions := X, subscriptionsRef := Y, nextSubscription := Z \<rparr>"
    using subscribeToCharacteristics_frame [of "services_r env" ?s1]
      connectToDevice_connects [OF assms, of c device] by metis
  show "connectedDevice (connectToDevice c env device s) = Some d"
    by (simp add: eq setupConnectionMonitoring_def addSubscription_def setConnectionStatus_def)
  show "isConnected (connectToDevice c env device s)"
    by (simp add: eq setupConnectionMonitoring_def addSubscription_def setConnectionStatus_def)
  show "connectionStatus (connectToDevice c env device s) = Connected"
    by (simp add: eq setupConnectionMonitoring_def addSubscription_def setConnectionStatus_def)
  show "bleManagerRef (connectToDevice c env device s)"
    using assms(1)
    by (simp add: eq setupConnectionMonitoring_def addSubscription_def setConnectionStatus_def
        stopScan_eq)
  show "timers (connectToDevice c env device s) = timers (if isScanning_c c then stopScan s else s)"
    by (simp add: eq setupConnectionMonitoring_def addSubscription_def setConnectionStatus_def
        stopScan_eq)
  show "nextTimer (connectToDevice c env device s) = nextTimer s"
    by (simp add: eq setupConnectionMonitoring_def addSubscription_def setConnectionStatus_def
        stopScan_eq)
  show "reconnectTimeoutRef (connectToDevice c env device s) = reconnectTimeoutRef s"
    by (simp add: eq setupConnectionMonitoring_def addSubscription_def setConnectionStatus_def
        stopScan_eq)
  show "scanTimeoutRef (connectToDevice c env device s) = scanTimeoutRef s"
    by (simp add: eq setupConnectionMonitoring_def addSubscription_def setConnectionStatus_def
        stopScan_eq)
  show "notifications (connectToDevice c env device s) = notifications s"
    by (simp add: eq setupConnectionMonitoring_def addSubscription_def setConnectionStatus_def
        stopScan_eq)
qed

lemma failure_connectFails: "failure (connectFails m) = Some (Error (Some m))"
  by (simp add: failure_def connectFails_def)

lemma render_mounted:
  "render mounted =
     \<lparr> isScanning_c = False, isConnected_c = False, connectedDevice_c = None,
       autoReconnect_c = True, permissionsGranted_c = True \<rparr>"
  by (simp add: mounted_eq render_def initial_state_def)

lemma classify_timeout: "classify ''Connection timeout'' = ConnectTimeout"
  by (simp add: classify_def)

lemma reconnecting_fields:
  "connectionStatus reconnecting = Reconnecting"
  "connectedDevice reconnecting = None"
  "\<not> isConnected reconnecting"
  "bleManagerRef reconnecting"
  "timers reconnecting = [0 \<mapsto> ReconnectTimeout (render mounted) sensor]"
  "nextTimer reconnecting = 1"
  "reconnectTimeoutRef reconnecting = Some 0"
  "scanTimeoutRef reconnecting = None"
  "autoReconnect reconnecting"
  "\<not> isScanning reconnecting"
  "permissionsGranted reconnecting"
proof -
  have b: "bleManagerRef mounted" by (simp add: mounted_eq initial_state_def)
  have eq: "reconnecting =
              connectFailed (render mounted) sensor (Error (Some ''Connection timeout''))
                (setConnectionStatus Connecting mounted)"
    unfolding reconnecting_def
    by (simp add: connectToDevice_fails [OF b failure_connectFails] render_mounted)
  have sched: "autoReconnect_c (render mounted) \<and>
               \<not> includes_str (classifiedMessage (rawMessage (Error (Some ''Connection timeout''))))
                   ''cancelled''"
    by (simp add: cancelled_in_classifiedMessage rawMessage_def classify_timeout render_mounted
        del: includes_str.simps)
  show "connectionStatus reconnecting = Reconnecting"
    "connectedDevice reconnecting = None"
    "\<not> isConnected reconnecting"
    "bleManagerRef reconnecting"
    "timers reconnecting = [0 \<mapsto> ReconnectTimeout (render mounted) sensor]"
    "nextTimer reconnecting = 1"
    "reconnectTimeoutRef reconnecting = Some 0"
    "scanTimeoutRef reconnecting = None"
    "autoReconnect reconnecting"
    "\<not> isScanning reconnecting"
    "permissionsGranted reconnecting"
    using sched
    by (simp_all add: eq connectFailed_eq setConnectionStatus_def mounted_eq initial_state_def
        del: includes_str.simps)
qed

text \<open>
  C2 as the specification states it fails in \<open>Reconnecting\<close>: after a connection attempt
  has failed and a reconnect was scheduled, no connected device is recorded, so
  \<open>disconnect\<close> returns at its guard; the timer stays armed and the status stays
  \<open>Reconnecting\<close>.
\<close>

theorem disconnect_while_reconnecting:
  "connectionStatus reconnecting = Reconnecting \<and> pending 0 reconnecting \<and>
   disconnect (render reconnecting) None reconnecting = reconnecting"
proof -
  have "connectedDevice_c (render reconnecting) = None"
    by (simp add: render_def reconnecting_fields)
  then have "disconnect (render reconnecting) None reconnecting = reconnecting"
    by (simp add: disconnect_noop)
  then show ?thesis by (simp add: reconnecting_fields pending_def)
qed

lemma connectedToBeacon_fields:
  "connectedDevice connectedToBeacon = Some beacon"
  "isConnected connectedToBeacon"
  "connectionStatus connectedToBeacon = Connected"
  "bleManagerRef connectedToBeacon"
  "timers connectedToBeacon = [0 \<mapsto> ReconnectTimeout (render mounted) sensor]"
  "reconnectTimeoutRef connectedToBeacon = Some 0"
proof -
  have 1: "bleManagerRef reconnecting" by (rule reconnecting_fields)
  have 2: "isConnected_r (connects beacon) = Inr False"
    and 3: "connectToDevice_r (connects beacon) = Inr beacon"
    and 4: "discover_r (connects beacon) = None"
    by (simp_all add: connects_def)
  note f = connectToDevice_connects_fields [OF 1 2 3 4, of "render reconnecting" beacon,
      folded connectedToBeacon_def]
  have ns: "\<not> isScanning_c (render reconnecting)" by (simp add: render_def reconnecting_fields)
  show "connectedDevice connectedToBeacon = Some beacon" by (rule f)
  show "isConnected connectedToBeacon" by (rule f)
  show "connectionStatus connectedToBeacon = Connected" by (rule f)
  show "bleManagerRef connectedToBeacon" by (rule f)
  show "timers connectedToBeacon = [0 \<mapsto> ReconnectTimeout (render mounted) sensor]"
    using ns by (simp add: f(5) reconnecting_fields)
  show "reconnectTimeoutRef connectedToBeacon = Some 0"
    by (simp add: f(7) reconnecting_fields)
qed

theorem disconnect_connected_session_witness:
  "\<not> pending 0 (disconnect (render connectedToBeacon) None connectedToBeacon) \<and>
   subscriptionsRef (disconnect (render connectedToBeacon) None connectedToBeacon) = [] \<and>
   notifications (disconnect (render connectedToBeacon) None connectedToBeacon) = [] \<and>
   connectionStatus (disconnect (render connectedToBeacon) None connectedToBeacon) = Disconnected \<and>
   connectedDevice (disconnect (render connectedToBeacon) None connectedToBeacon) = None"
proof -
  have 1: "bleManagerRef connectedToBeacon \<and> connectedDevice_c (render connectedToBeacon) \<noteq> None"
    by (simp add: render_def connectedToBeacon_fields)
  have 2: "reconnectTimeoutRef connectedToBeacon = Some 0" by (rule connectedToBeacon_fields)
  from disconnect_connected_session [of connectedToBeacon "render connectedToBeacon" None None] 1 2
  show ?thesis by simp
qed

text \<open>
  C1 as the specification states it fails: the reconnect timer armed for the sensor is
  still pending after the user has connected to the beacon, and when it fires it connects
  to the sensor, replacing the beacon as the connected device.
\<close>

theorem stale_reconnect_timer_fires:
  "connectedDevice connectedToBeacon = Some beacon \<and>
   connectionStatus connectedToBeacon = Connected \<and>
   pending 0 connectedToBeacon \<and>
   connectedDevice (fireTimer 0 (connects sensor) connectedToBeacon) = Some sensor \<and>
   fireTimer 0 (connects sensor) connectedToBeacon \<noteq> connectedToBeacon"
proof -
  have fire: "fireTimer 0 (connects sensor) connectedToBeacon =
                connectToDevice (render mounted) (connects sensor) sensor
                  (clearTimeout 0 connectedToBeacon)"
    by (simp add: fireTimer_def connectedToBeacon_fields)
  have 1: "bleManagerRef (clearTimeout 0 connectedToBeacon)"
    by (simp add: clearTimeout_def connectedToBeacon_fields)
  have 2: "isConnected_r (connects sensor) = Inr False"
    and 3: "connectToDevice_r (connects sensor) = Inr sensor"
    and 4: "discover_r (connects sensor) = None"
    by (simp_all add: connects_def)
  have dev: "connectedDevice (fireTimer 0 (connects sensor) connectedToBeacon) = Some sensor"
    by (simp only: fire connectToDevice_connects_fields(1) [OF 1 2 3 4])
  have "sensor \<noteq> beacon" by (simp add: sensor_def beacon_def)
  with dev have "fireTimer 0 (connects sensor) connectedToBeacon \<noteq> connectedToBeacon"
    by (auto simp: connectedToBeacon_fields)
  with dev show ?thesis by (simp add: connectedToBeacon_fields pending_def)
qed

section \<open>Reconnect timers: properties\<close>

lemma failure_None:
  assumes "failure env = None"
  shows "isConnected_r env = Inr True \<or>
         (isConnected_r env = Inr False \<and> (\<exists>d. connectToDevice_r env = Inr d) \<and> discover_r env = None)"
proof (cases "isConnected_r env")
  case (Inl e)
  with assms show ?thesis by (simp add: failure_def)
next
  case (Inr b)
  show ?thesis
  proof (cases b)
    case True
    with Inr show ?thesis by simp
  next
    case False
    show ?thesis
    proof (cases "connectToDevice_r env")
      case (Inl e)
      with assms Inr False show ?thesis by (simp add: failure_def)
    next
      case (Inr d)
      with assms \<open>isConnected_r env = Inr b\<close> False show ?thesis by (simp add: failure_def)
    qed
  qed
qed

lemma timers_stopScan: "scanTimeoutRef s \<noteq> Some t \<Longrightarrow> timers (stopScan s) t = timers s t"
  by (simp add: stopScan_eq restrict_map_def)

lemma timers_connectToDevice:
  assumes "t \<noteq> nextTimer s" and "scanTimeoutRef s \<noteq> Some t"
  shows "timers (connectToDevice c env d s) t = timers s t"
proof (cases "bleManagerRef s")
  case False
  then show ?thesis by (simp add: connectToDevice_def)
next
  case True
  show ?thesis
  proof (cases "failure env")
    case (Some e)
    from assms show ?thesis
      by (simp add: connectToDevice_fails [OF True Some] connectFailed_eq stopScan_eq
          setConnectionStatus_def restrict_map_def)
  next
    case None
    from failure_None [OF None] show ?thesis
    proof
      assume a: "isConnected_r env = Inr True"
      obtain X Y Z where
        "connectToDevice c env d s =
           ((if isScanning_c c then stopScan s else s)
              \<lparr> connectedDevice := Some d, isConnected := True, connectionStatus := Connected,
                 statusTrace := statusTrace s @ [Connecting, Connected] \<rparr>)
             \<lparr> subscriptions := X, subscriptionsRef := Y, nextSubscription := Z \<rparr>"
        using subscribeToCharacteristics_frame connectToDevice_alreadyConnected [OF True a, of c d]
        by metis
      with assms(2) show ?thesis by (simp add: timers_stopScan)
    next
      assume "isConnected_r env = Inr False \<and> (\<exists>d. connectToDevice_r env = Inr d) \<and>
              discover_r env = None"
      then obtain d' where a: "isConnected_r env = Inr False" "connectToDevice_r env = Inr d'"
        "discover_r env = None" by blast
      from assms(2) show ?thesis
        by (simp add: connectToDevice_connects_fields(5) [OF True a] timers_stopScan)
    qed
  qed
qed

text \<open>
  C1 (as amended). The code has no session generations, and \<open>connectToDevice\<close> never
  clears the reconnect timer. A reconnect timer that is pending (its handle \<open>t\<close> issued
  earlier, and not the scan timer's) is still pending after any \<open>connectToDevice\<close>,
  however that attempt ends; when it fires, it runs the \<open>connectToDevice\<close> it closed over,
  for the device it was armed for, on the state as it is then. What does cancel it is
  \<open>disconnect\<close> on a session with a connected device, while the ref still holds its
  handle: after that the timer is not pending and its firing changes nothing.
\<close>

theorem reconnect_timer_outlives_connect:
  assumes "timers s t = Some (ReconnectTimeout c0 d0)"
    and "t \<noteq> nextTimer s" and "scanTimeoutRef s \<noteq> Some t"
  shows "timers (connectToDevice c env d s) t = Some (ReconnectTimeout c0 d0) \<and>
         fireTimer t env' (connectToDevice c env d s) =
           connectToDevice c0 env' d0 (clearTimeout t (connectToDevice c env d s)) \<and>
         (bleManagerRef (connectToDevice c env d s) \<and> connectedDevice_c c1 \<noteq> None \<and>
          reconnectTimeoutRef (connectToDevice c env d s) = Some t \<longrightarrow>
            \<not> pending t (disconnect c1 r (connectToDevice c env d s)) \<and>
            fireTimer t env' (disconnect c1 r (connectToDevice c env d s)) =
              disconnect c1 r (connectToDevice c env d s))"
proof -
  have kept: "timers (connectToDevice c env d s) t = Some (ReconnectTimeout c0 d0)"
    using assms by (simp add: timers_connectToDevice)
  then have fire: "fireTimer t env' (connectToDevice c env d s) =
                     connectToDevice c0 env' d0 (clearTimeout t (connectToDevice c env d s))"
    by (simp add: fireTimer_def)
  have "\<not> pending t (disconnect c1 r s') \<and> fireTimer t env' (disconnect c1 r s') = disconnect c1 r s'"
    if a: "bleManagerRef s' \<and> connectedDevice_c c1 \<noteq> None \<and> reconnectTimeoutRef s' = Some t"
    for s'
  proof -
    from a have b: "bleManagerRef s'" and n: "connectedDevice_c c1 \<noteq> None"
      and r: "reconnectTimeoutRef s' = Some t" by simp_all
    have "\<not> pending t (disconnect c1 r s')"
      by (cases r) (simp_all add: disconnect_eq [OF b n] pending_def r)
    then show ?thesis by (simp add: fireTimer_not_pending)
  qed
  with kept fire show ?thesis by blast
qed

theorem reconnect_timer_outlives_connect_witness:
  "timers connectedToBeacon 0 = Some (ReconnectTimeout (render mounted) sensor) \<and>
   fireTimer 0 (connects sensor) connectedToBeacon =
     connectToDevice (render mounted) (connects sensor) sensor (clearTimeout 0 connectedToBeacon) \<and>
   \<not> pending 0 (disconnect (render connectedToBeacon) None connectedToBeacon) \<and>
   fireTimer 0 (connects sensor) (disconnect (render connectedToBeacon) None connectedToBeacon) =
     disconnect (render connectedToBeacon) None connectedToBeacon"
proof -
  have 1: "timers reconnecting 0 = Some (ReconnectTimeout (render mounted) sensor)"
    and 2: "0 \<noteq> nextTimer reconnecting" and 3: "scanTimeoutRef reconnecting \<noteq> Some 0"
    and 4: "bleManagerRef connectedToBeacon \<and> connectedDevice_c (render connectedToBeacon) \<noteq> None \<and>
            reconnectTimeoutRef connectedToBeacon = Some 0"
    by (simp_all add: reconnecting_fields connectedToBeacon_fields render_def)
  from reconnect_timer_outlives_connect
         [OF 1 2 3, of "render reconnecting" "connects beacon" beacon "connects sensor"
            "render connectedToBeacon" None, folded connectedToBeacon_def] 4
  show ?thesis by simp
qed

section \<open>Failed connection attempts: what is scheduled\<close>

lemma reconnectArmed_iff:
  assumes "bleManagerRef s" and "failure env = Some e"
  shows "reconnectArmed c device s (connectToDevice c env device s) \<longleftrightarrow>
           autoReconnect_c c \<and> \<not> includes_str (classifiedMessage (rawMessage e)) ''cancelled''"
  by (simp add: connectToDevice_fails [OF assms] connectFailed_eq reconnectArmed_def stopScan_eq
      setConnectionStatus_def del: includes_str.simps)

lemma failed_attempt_fields:
  assumes "bleManagerRef s" and "failure env = Some e"
  shows "connectedDevice (connectToDevice c env device s) = None"
    and "\<not> isConnected (connectToDevice c env device s)"
    and "statusTrace (connectToDevice c env device s) =
           statusTrace s @ [Connecting, ConnectionFailed] @
             (if reconnectArmed c device s (connectToDevice c env device s) then [Reconnecting] else [])"
    and "connectionStatus (connectToDevice c env device s) =
           (if reconnectArmed c device s (connectToDevice c env device s) then Reconnecting
            else ConnectionFailed)"
    and "\<not> reconnectArmed c device s (connectToDevice c env device s) \<Longrightarrow>
           nextTimer (connectToDevice c env device s) = nextTimer s \<and>
           reconnectTimeoutRef (connectToDevice c env device s) = reconnectTimeoutRef s"
  unfolding reconnectArmed_iff [OF assms]
  by (simp_all add: connectToDevice_fails [OF assms] connectFailed_eq stopScan_eq
      setConnectionStatus_def del: includes_str.simps)

text \<open>
  C6 (as amended). A connection attempt that fails (at \<open>isConnected\<close>, at the connection
  request or at the discovery) sets the status to \<open>Connection Failed\<close> and resets the
  connected device. A reconnect timer is armed exactly when the attempt's render has
  auto-reconnect on and the message, after the chain of lines 372-381, does not contain
  \<open>cancelled\<close>: never for a message that takes the \<open>Operation was cancelled\<close> branch;
  always, with auto-reconnect, for one that takes the timeout, not-found or disconnected
  branch; and for a message that takes no branch, unless it contains \<open>cancelled\<close>. When a
  timer is armed the status goes on to \<open>Reconnecting\<close> in the same handler; only otherwise
  does the attempt end in \<open>Connection Failed\<close>, with no timer armed and the ref as it was.
\<close>

theorem failed_connect_attempt:
  assumes "bleManagerRef s" and "failure env = Some e"
  shows "(classify (rawMessage e) = OperationCancelled \<longrightarrow>
            \<not> reconnectArmed c device s (connectToDevice c env device s)) \<and>
         (classify (rawMessage e) \<in> {ConnectTimeout, DeviceNotFound, DeviceDisconnectedDuringSetup} \<longrightarrow>
            reconnectArmed c device s (connectToDevice c env device s) = autoReconnect_c c) \<and>
         (classify (rawMessage e) = Unclassified \<longrightarrow>
            reconnectArmed c device s (connectToDevice c env device s) =
              (autoReconnect_c c \<and> \<not> includes_str (rawMessage e) ''cancelled'')) \<and>
         connectedDevice (connectToDevice c env device s) = None \<and>
         \<not> isConnected (connectToDevice c env device s) \<and>
         statusTrace (connectToDevice c env device s) =
           statusTrace s @ [Connecting, ConnectionFailed] @
             (if reconnectArmed c device s (connectToDevice c env device s) then [Reconnecting] else []) \<and>
         connectionStatus (connectToDevice c env device s) =
           (if reconnectArmed c device s (connectToDevice c env device s) then Reconnecting
            else ConnectionFailed) \<and>
         (\<not> reconnectArmed c device s (connectToDevice c env device s) \<longrightarrow>
            nextTimer (connectToDevice c env device s) = nextTimer s \<and>
            reconnectTimeoutRef (connectToDevice c env device s) = reconnectTimeoutRef s)"
proof -
  note armed = reconnectArmed_iff [OF assms, of c device]
  note f = failed_attempt_fields [OF assms, of c device]
  have a: "classify (rawMessage e) = OperationCancelled \<longrightarrow>
             \<not> reconnectArmed c device s (connectToDevice c env device s)"
    by (simp add: armed cancelled_in_classifiedMessage del: includes_str.simps)
  have b: "classify (rawMessage e) \<in> {ConnectTimeout, DeviceNotFound, DeviceDisconnectedDuringSetup} \<longrightarrow>
             reconnectArmed c device s (connectToDevice c env device s) = autoReconnect_c c"
    by (auto simp add: armed cancelled_in_classifiedMessage simp del: includes_str.simps)
  have u: "classify (rawMessage e) = Unclassified \<longrightarrow>
             reconnectArmed c device s (connectToDevice c env device s) =
               (autoReconnect_c c \<and> \<not> includes_str (rawMessage e) ''cancelled'')"
    by (simp add: armed cancelled_in_classifiedMessage del: includes_str.simps)
  from a b u f show ?thesis by blast
qed

lemma rawMessage_Some: "m \<noteq> [] \<Longrightarrow> rawMessage (Error (Some m)) = m"
  by (simp add: rawMessage_def)

lemma classify_cancelled: "classify ''Operation was cancelled'' = OperationCancelled"
  by (simp add: classify_def)

lemma classify_request_cancelled: "classify ''Request cancelled'' = Unclassified"
  by (simp add: classify_def)

lemma request_cancelled_mentions: "includes_str ''Request cancelled'' ''cancelled''"
  by simp

lemma bleManagerRef_mounted: "bleManagerRef mounted"
  by (simp add: mounted_eq initial_state_def)

theorem failed_connect_attempt_witness:
  "classify (rawMessage (Error (Some ''Operation was cancelled''))) = OperationCancelled \<and>
   autoReconnect_c (render mounted) \<and>
   \<not> reconnectArmed (render mounted) sensor mounted
       (connectToDevice (render mounted) (connectFails ''Operation was cancelled'') sensor mounted) \<and>
   connectionStatus
       (connectToDevice (render mounted) (connectFails ''Operation was cancelled'') sensor mounted) =
     ConnectionFailed"
proof -
  have c: "classify (rawMessage (Error (Some ''Operation was cancelled''))) = OperationCancelled"
    by (simp add: rawMessage_Some classify_cancelled)
  from failed_connect_attempt [OF bleManagerRef_mounted failure_connectFails,
      of "''Operation was cancelled''" "render mounted" sensor] c
  show ?thesis by (simp add: render_mounted)
qed

text \<open>
  C6 as the specification states it fails twice. A failure whose message mentions
  \<open>cancelled\<close> without matching any branch of the chain is not classified as a
  cancellation, yet no reconnect is armed for it with auto-reconnect on. And an attempt
  that fails with a timeout, auto-reconnect on, ends in \<open>Reconnecting\<close>, not in
  \<open>Connection Failed\<close>.
\<close>

theorem failed_attempt_not_as_claimed:
  "classify (rawMessage (Error (Some ''Request cancelled''))) = Unclassified \<and>
   failure (connectFails ''Request cancelled'') = Some (Error (Some ''Request cancelled'')) \<and>
   autoReconnect_c (render mounted) \<and>
   \<not> reconnectArmed (render mounted) sensor mounted
       (connectToDevice (render mounted) (connectFails ''Request cancelled'') sensor mounted) \<and>
   classify (rawMessage (Error (Some ''Connection timeout''))) = ConnectTimeout \<and>
   failure (connectFails ''Connection timeout'') = Some (Error (Some ''Connection timeout'')) \<and>
   connectionStatus
       (connectToDevice (render mounted) (connectFails ''Connection timeout'') sensor mounted) =
     Reconnecting"
proof -
  have r: "rawMessage (Error (Some ''Request cancelled'')) = ''Request cancelled''"
    by (simp add: rawMessage_Some)
  have "\<not> reconnectArmed (render mounted) sensor mounted
           (connectToDevice (render mounted) (connectFails ''Request cancelled'') sensor mounted)"
    by (simp add: reconnectArmed_iff [OF bleManagerRef_mounted failure_connectFails]
        cancelled_in_classifiedMessage r classify_request_cancelled request_cancelled_mentions
        del: includes_str.simps)
  moreover have "connectionStatus
       (connectToDevice (render mounted) (connectFails ''Connection timeout'') sensor mounted) =
     Reconnecting"
    using reconnecting_fields(1) by (simp only: reconnecting_def)
  ultimately show ?thesis
    by (simp add: r classify_request_cancelled failure_connectFails render_mounted
        rawMessage_Some classify_timeout del: includes_str.simps)
qed

section \<open>The radio state: properties\<close>

text \<open>
  What \<open>updateConnectionStatusFromBluetoothState\<close> does on \<open>PoweredOff\<close> depends on the
  \<open>isScanning\<close> of the render it belongs to.
\<close>

lemma radio_off_seen_scanning:
  "isScanning_c c \<Longrightarrow>
   updateConnectionStatusFromBluetoothState c PoweredOff s = stopScan (setConnectionStatus BluetoothOff s)"
  by (simp add: updateConnectionStatusFromBluetoothState_def)

lemma radio_off_unseen:
  "\<not> isScanning_c c \<Longrightarrow>
   updateConnectionStatusFromBluetoothState c PoweredOff s = setConnectionStatus BluetoothOff s"
  by (simp add: updateConnectionStatusFromBluetoothState_def)

text \<open>
  The listener of the first render does not see a scan: whatever the state, it sets the
  status and leaves the scan as it is.
\<close>

lemma radio_off_first_render:
  "stateSubscriptionRef s = Some (render initial_state) \<Longrightarrow>
   onStateChange PoweredOff s =
     setConnectionStatus BluetoothOff (s\<lparr> bluetoothState := PoweredOff \<rparr>)"
  by (simp add: onStateChange_def stateListener_def radio_off_unseen render_def initial_state_def)

lemma startScan_mounted:
  "startScan (render mounted) scan_ok mounted =
     mounted\<lparr> isScanning := True, devices := [], permissionsGranted := True,
        adapterScanning := True, timers := [0 \<mapsto> ScanTimeout], nextTimer := Suc 0,
        scanTimeoutRef := Some 0 \<rparr>"
proof -
  have 1: "bleManagerRef mounted" and 2: "state_r (prerequisites scan_ok) = Inr PoweredOn"
    and 3: "permissionsGranted_c (render mounted) \<or> granted_r (prerequisites scan_ok)"
    and 4: "\<not> startDeviceScan_throws scan_ok"
    by (simp_all add: mounted_eq scan_ok_def initial_state_def)
  show ?thesis
    by (simp add: startScan_proceeds [OF 1 2 3 4]) (simp add: mounted_eq initial_state_def)
qed

text \<open>
  C8. The listener that \<open>onStateChange\<close> calls was registered by the \<open>initializeBLE\<close> of
  the first render, and calls that render's \<open>updateConnectionStatusFromBluetoothState\<close>,
  whose \<open>isScanning\<close> is the initial \<open>false\<close> whatever the state is now. So when the
  radio goes off while the mounted component scans, the status becomes \<open>Bluetooth Off\<close>
  and the device list is kept, but \<open>stopScan\<close> is not called: \<open>isScanning\<close> stays true,
  the library's scan is not stopped and the auto-stop timer stays pending.
\<close>

theorem radio_off_while_scanning:
  "isScanning scanning \<and> adapterScanning scanning \<and> pending 0 scanning \<and>
   devices scanning = [sensor] \<and>
   stateSubscriptionRef scanning = Some (render initial_state) \<and>
   \<not> isScanning_c (render initial_state) \<and>
   connectionStatus (onStateChange PoweredOff scanning) = BluetoothOff \<and>
   devices (onStateChange PoweredOff scanning) = [sensor] \<and>
   isScanning (onStateChange PoweredOff scanning) \<and>
   adapterScanning (onStateChange PoweredOff scanning) \<and>
   pending 0 (onStateChange PoweredOff scanning)"
proof -
  have sc: "scanning =
              mounted\<lparr> isScanning := True, devices := [sensor], permissionsGranted := True,
                 adapterScanning := True, timers := [0 \<mapsto> ScanTimeout], nextTimer := Suc 0,
                 scanTimeoutRef := Some 0 \<rparr>"
    by (simp add: scanning_def startScan_mounted addDevice_def)
  have l: "stateSubscriptionRef scanning = Some (render initial_state)"
    by (simp add: sc mounted_eq)
  have ns: "\<not> isScanning_c (render initial_state)"
    by (simp add: render_def initial_state_def)
  have off: "onStateChange PoweredOff scanning =
               setConnectionStatus BluetoothOff (scanning\<lparr> bluetoothState := PoweredOff \<rparr>)"
    using l by (rule radio_off_first_render)
  show ?thesis
    using l ns by (simp add: off setConnectionStatus_def pending_def) (simp add: sc)
qed

section \<open>The notification log: properties\<close>

lemma monitorCallback_pushes:
  "value_u ch = Some v \<Longrightarrow> v \<noteq> [] \<Longrightarrow>
   notifications (monitorCallback su None (Some ch) k s) =
     pushNotification
       \<lparr> id_n = notificationId k, serviceUUID = su, characteristicUUID = uuid_u ch,
         value_n = v, timestamp = localeTime k \<rparr>
       (notifications s)"
  by (simp add: monitorCallback_def)

text \<open>
  C3 (as amended). The id of a pushed event is \<open>Date.now() + Math.random()\<close> taken when
  the value arrives; there is no counter. With the fraction the sum adds between 0 and 1,
  an event whose clock reading is later than another's has an id at least as great, and
  one whose clock reading is more than a millisecond later has a strictly greater id;
  the event is pushed at the head of the log with that id. Nothing orders the ids of two
  events that read the same millisecond, or of events on either side of a clock that was
  set back.
\<close>

theorem notificationId_order:
  assumes "0 \<le> random k1" and "random k1 \<le> 1" and "0 \<le> random k2"
  shows "(now k1 < now k2 \<longrightarrow> notificationId k1 \<le> notificationId k2) \<and>
         (now k1 + 1 < now k2 \<longrightarrow> notificationId k1 < notificationId k2) \<and>
         (value_u ch = Some v \<and> v \<noteq> [] \<longrightarrow>
            notifications (monitorCallback su None (Some ch) k1 s) =
              \<lparr> id_n = notificationId k1, serviceUUID = su, characteristicUUID = uuid_u ch,
                value_n = v, timestamp = localeTime k1 \<rparr> # take 99 (notifications s))"
proof -
  have le: "notificationId k1 \<le> notificationId k2" if "now k1 < now k2"
  proof -
    from that have "now k1 + 1 \<le> now k2" by simp
    then have "(of_int (now k1) :: rat) + 1 \<le> of_int (now k2)"
      by (metis of_int_1 of_int_add of_int_le_iff)
    with assms show ?thesis by (simp add: notificationId_def)
  qed
  have less: "notificationId k1 < notificationId k2" if "now k1 + 1 < now k2"
  proof -
    from that have "(of_int (now k1) :: rat) + 1 < of_int (now k2)"
      by (metis of_int_1 of_int_add of_int_less_iff)
    with assms show ?thesis by (simp add: notificationId_def)
  qed
  from le less show ?thesis
    by (auto simp: monitorCallback_pushes pushNotification_def)
qed

theorem notificationId_order_witness:
  "notificationId (at_ms 1000 (3 / 4)) < notificationId (at_ms 1002 (1 / 4)) \<and>
   map id_n (notifications (monitorCallback ''180f'' None (Some update) (at_ms 1000 (3 / 4)) mounted)) =
     [4003 / 4]"
proof -
  have 1: "0 \<le> random (at_ms 1000 (3 / 4))" and 2: "random (at_ms 1000 (3 / 4)) \<le> 1"
    and 3: "0 \<le> random (at_ms 1002 (1 / 4))"
    and 4: "now (at_ms 1000 (3 / 4)) + 1 < now (at_ms 1002 (1 / 4))"
    and 5: "value_u update = Some ''ZA=='' \<and> ''ZA=='' \<noteq> []"
    and 6: "notifications mounted = []"
    and 7: "notificationId (at_ms 1000 (3 / 4)) = 4003 / 4"
    by (simp_all add: at_ms_def update_def mounted_eq initial_state_def notificationId_def)
  from notificationId_order [OF 1 2 3, of update "''ZA==''" "''180f''" mounted] 4 5 6 7
  show ?thesis by simp
qed

text \<open>
  C3 as the specification states it fails: of two values that arrive within the same
  millisecond, the one pushed later can have the smaller id.
\<close>

theorem same_millisecond_ids_decrease:
  "map id_n
     (notifications
        (monitorCallback ''180f'' None (Some update) (at_ms 1000 (1 / 4))
           (monitorCallback ''180f'' None (Some update) (at_ms 1000 (3 / 4)) mounted))) =
     [4001 / 4, 4003 / 4] \<and>
   \<not> (4003 / 4 :: rat) < 4001 / 4"
  by (simp add: monitorCallback_def update_def pushNotification_def notificationId_def at_ms_def
      mounted_eq initial_state_def)

subsection \<open>The bound of the log\<close>

lemma take_snoc_take: "n \<le> length xs + m \<Longrightarrow> take n (xs @ take m ys) = take n (xs @ ys)"
  by (auto simp: min_def)

lemma fold_pushNotification:
  "length prev \<le> 100 \<Longrightarrow> fold pushNotification ns prev = take 100 (rev ns @ prev)"
proof (induction ns arbitrary: prev)
  case Nil
  then show ?case by simp
next
  case (Cons n ns)
  have "fold pushNotification (n # ns) prev = fold pushNotification ns (n # take 99 prev)"
    by (simp add: pushNotification_def)
  also have "\<dots> = take 100 (rev ns @ n # take 99 prev)"
    by (rule Cons.IH) simp
  also have "\<dots> = take 100 ((rev ns @ [n]) @ take 99 prev)" by simp
  also have "\<dots> = take 100 ((rev ns @ [n]) @ prev)"
    by (rule take_snoc_take) simp
  finally show ?case by simp
qed

lemma fold_pushNotification_empty: "fold pushNotification ns [] = take 100 (rev ns)"
  using fold_pushNotification [of "[]" ns] by simp

text \<open>
  C4 (as amended). \<open>pushNotification\<close> puts the event at the head; a log of fewer than 100
  entries keeps them all, a log of 100 loses its last, oldest entry. Any sequence of
  pushes onto a log of at most 100 entries leaves the most recent 100 of them, most recent
  first, so never more than 100; 105 pushes onto the empty log leave exactly the last 100
  pushed. These carry the 100 highest ids of those issued when the ids were issued in
  strictly increasing order, which C3 shows the code does not ensure.
\<close>

theorem notification_log_bounded:
  "(length prev < 100 \<longrightarrow> pushNotification n prev = n # prev) \<and>
   (length prev = 100 \<longrightarrow> pushNotification n prev = n # butlast prev) \<and>
   (length prev \<le> 100 \<longrightarrow> fold pushNotification ns prev = take 100 (rev ns @ prev)) \<and>
   length (fold pushNotification ns []) = min 100 (length ns) \<and>
   (length ns = 105 \<longrightarrow> fold pushNotification ns [] = rev (drop 5 ns)) \<and>
   (sorted_wrt (<) (map id_n ns) \<longrightarrow>
      (\<forall>x \<in> set (take (length ns - 100) ns). \<forall>y \<in> set (fold pushNotification ns []).
         id_n x < id_n y))"
proof -
  have a: "length prev < 100 \<longrightarrow> pushNotification n prev = n # prev"
    by (simp add: pushNotification_def)
  have b: "length prev = 100 \<longrightarrow> pushNotification n prev = n # butlast prev"
    by (simp add: pushNotification_def butlast_conv_take)
  have c: "length prev \<le> 100 \<longrightarrow> fold pushNotification ns prev = take 100 (rev ns @ prev)"
    by (simp add: fold_pushNotification)
  have d: "length (fold pushNotification ns []) = min 100 (length ns)"
    by (simp add: fold_pushNotification_empty)
  have kept: "fold pushNotification ns [] = rev (drop (length ns - 100) ns)"
    by (simp add: fold_pushNotification_empty take_rev)
  have e: "length ns = 105 \<longrightarrow> fold pushNotification ns [] = rev (drop 5 ns)"
    by (simp add: kept)
  have f: "sorted_wrt (<) (map id_n ns) \<longrightarrow>
      (\<forall>x \<in> set (take (length ns - 100) ns). \<forall>y \<in> set (fold pushNotification ns []).
         id_n x < id_n y)"
  proof
    assume "sorted_wrt (<) (map id_n ns)"
    then have "sorted_wrt (<) (map id_n (take (length ns - 100) ns @ drop (length ns - 100) ns))"
      by simp
    then have "\<forall>x \<in> set (take (length ns - 100) ns). \<forall>y \<in> set (drop (length ns - 100) ns).
                 id_n x < id_n y"
      unfolding map_append sorted_wrt_append by simp
    then show "\<forall>x \<in> set (take (length ns - 100) ns). \<forall>y \<in> set (fold pushNotification ns []).
                 id_n x < id_n y"
      by (simp add: kept)
  qed
  from a b c d e f show ?thesis by blast
qed

lemma id_n_event: "id_n (event t) = of_int t"
  by (simp add: event_def notificationId_def at_ms_def)

lemma event_eq_iff: "event a = event b \<longleftrightarrow> a = b"
proof
  assume "event a = event b"
  then have "id_n (event a) = id_n (event b)" by simp
  then show "a = b" by (simp add: id_n_event)
qed simp

theorem notification_log_bounded_witness:
  "fold pushNotification (map (\<lambda>i. event (int i)) [0..<105]) [] =
     rev (drop 5 (map (\<lambda>i. event (int i)) [0..<105])) \<and>
   length (fold pushNotification (map (\<lambda>i. event (int i)) [0..<105]) []) = 100"
proof -
  note t = notification_log_bounded [of "[]" "event 0" "map (\<lambda>i. event (int i)) [0..<105]"]
  have len: "length (map (\<lambda>i. event (int i)) [0..<105]) = 105" by simp
  from t have "length (fold pushNotification (map (\<lambda>i. event (int i)) [0..<105]) []) =
                 min 100 (length (map (\<lambda>i. event (int i)) [0..<105]))"
    by blast
  then have a: "length (fold pushNotification (map (\<lambda>i. event (int i)) [0..<105]) []) = 100"
    by (simp only: len)
  from t len have b: "fold pushNotification (map (\<lambda>i. event (int i)) [0..<105]) [] =
                        rev (drop 5 (map (\<lambda>i. event (int i)) [0..<105]))"
    by blast
  from b a show ?thesis by (rule conjI)
qed

text \<open>
  C4 as the specification states it fails: 105 events are pushed, the first read the
  clock at 5000 ms and the others, after the clock was set back, at 1000 to 1103 ms. The
  log keeps the last 100 pushed; the event with the highest id of all is not among them.
\<close>

theorem latest_hundred_not_highest_ids:
  "length (fold pushNotification (event 5000 # map (\<lambda>i. event (1000 + int i)) [0..<104]) []) = 100 \<and>
   event 5000 \<notin> set (fold pushNotification (event 5000 # map (\<lambda>i. event (1000 + int i)) [0..<104]) []) \<and>
   event 1103 \<in> set (fold pushNotification (event 5000 # map (\<lambda>i. event (1000 + int i)) [0..<104]) []) \<and>
   id_n (event 1103) < id_n (event 5000)"
proof -
  have "fold pushNotification (event 5000 # map (\<lambda>i. event (1000 + int i)) [0..<104]) [] =
          take 100 (rev (event 5000 # map (\<lambda>i. event (1000 + int i)) [0..<104]))"
    by (rule fold_pushNotification_empty)
  also have "\<dots> = rev (drop 5 (event 5000 # map (\<lambda>i. event (1000 + int i)) [0..<104]))"
    by (simp add: take_rev del: upt_rec_numeral)
  also have "\<dots> = rev (map (\<lambda>i. event (1000 + int i)) [4..<104])"
    by (simp add: drop_map del: upt_rec_numeral)
  finally have kept:
    "fold pushNotification (event 5000 # map (\<lambda>i. event (1000 + int i)) [0..<104]) [] =
       rev (map (\<lambda>i. event (1000 + int i)) [4..<104])" .
  have "event 1103 = event (1000 + int 103)" by simp
  then have in_log: "event 1103 \<in> (\<lambda>i. event (1000 + int i)) ` {4..<104}"
    by (intro image_eqI [where x = 103]) simp_all
  have out: "event 5000 \<notin> (\<lambda>i. event (1000 + int i)) ` {4..<104}"
    by (auto simp: event_eq_iff)
  have len: "length (rev (map (\<lambda>i. event (1000 + int i)) [4..<104])) = 100"
    by (simp del: upt_rec_numeral)
  have set_eq: "set (rev (map (\<lambda>i. event (1000 + int i)) [4..<104])) =
                  (\<lambda>i. event (1000 + int i)) ` {4..<104}"
    by (simp del: upt_rec_numeral)
  have ids: "id_n (event 1103) < id_n (event 5000)" by (simp add: id_n_event)
  from len in_log out ids show ?thesis by (simp only: kept set_eq) simp
qed

section \<open>A disconnect listener left by an earlier connection\<close>

lemma deliverDisconnected_append:
  "deliverDisconnected (hs @ hs') i err dd s =
     deliverDisconnected hs' i err dd (deliverDisconnected hs i err dd s)"
  by (induction hs arbitrary: s) simp_all

lemma subscriptions_disconnectedCallback:
  "subscriptions (disconnectedCallback c d err dd s) =
     subscriptions s |` (- set (subscriptionsRef s))"
  by (simp add: disconnectedCallback_def clearSubscriptions_eq scheduleReconnect_def
      setTimeout_def setConnectionStatus_def Let_def)

lemma onDeviceDisconnected_single:
  assumes one: "disconnectMonitors i s = [h]"
    and h: "subscriptions s h = Some (DisconnectMonitor c d)"
  shows "onDeviceDisconnected i err dd s = disconnectedCallback c d err dd s"
proof -
  let ?P = "\<lambda>m h'. case m h' of Some (DisconnectMonitor c d) \<Rightarrow> id_d d = i | _ \<Rightarrow> False"
  let ?n = "nextSubscription s"
  let ?s' = "disconnectedCallback c d err dd s"
  from one have f: "filter (?P (subscriptions s)) [0..<?n] = [h]"
    by (simp add: disconnectMonitors_def)
  then have "h \<in> set (filter (?P (subscriptions s)) [0..<?n])" by simp
  then have hn: "h < ?n" and ph: "?P (subscriptions s) h" by simp_all
  from ph h have id: "id_d d = i" by simp
  have only: "\<not> ?P (subscriptions s) x" if "x < ?n" and "x \<noteq> h" for x
  proof
    assume "?P (subscriptions s) x"
    with that(1) have "x \<in> set (filter (?P (subscriptions s)) [0..<?n])" by simp
    with f have "x \<in> set [h]" by simp
    with that(2) show False by simp
  qed
  have split: "[0..<?n] = [0..<h] @ [h] @ [Suc h..<?n]"
    using hn by (metis append_Cons append_Nil le_add2 less_imp_add_positive less_or_eq_imp_le
        upt_add_eq_append upt_conv_Cons zero_le)
  have before: "deliverDisconnected [0..<h] i err dd s = s"
  proof (rule deliverDisconnected_none, rule ballI)
    fix x assume "x \<in> set [0..<h]"
    with hn have "x < ?n" and "x \<noteq> h" by simp_all
    then show "\<not> ?P (subscriptions s) x" by (rule only)
  qed
  have at: "deliverDisconnected [h] i err dd s = ?s'"
    using h id by simp
  have after: "deliverDisconnected [Suc h..<?n] i err dd ?s' = ?s'"
  proof (rule deliverDisconnected_none, rule ballI)
    fix x assume "x \<in> set [Suc h..<?n]"
    then have "x < ?n" and "x \<noteq> h" by simp_all
    then have "\<not> ?P (subscriptions s) x" by (rule only)
    then show "\<not> ?P (subscriptions ?s') x"
      by (simp add: subscriptions_disconnectedCallback restrict_map_def)
  qed
  show ?thesis
    unfolding onDeviceDisconnected_def
    by (simp only: split deliverDisconnected_append before at after)
qed

lemma reconnecting_subscriptions:
  "subscriptions reconnecting = Map.empty"
  "nextSubscription reconnecting = 0"
  "subscriptionsRef reconnecting = []"
proof -
  have b: "bleManagerRef mounted" by (simp add: mounted_eq initial_state_def)
  have eq: "reconnecting =
              connectFailed (render mounted) sensor (Error (Some ''Connection timeout''))
                (setConnectionStatus Connecting mounted)"
    unfolding reconnecting_def
    by (simp add: connectToDevice_fails [OF b failure_connectFails] render_mounted)
  show "subscriptions reconnecting = Map.empty"
    "nextSubscription reconnecting = 0"
    "subscriptionsRef reconnecting = []"
    by (simp_all add: eq connectFailed_eq setConnectionStatus_def mounted_eq initial_state_def
        del: includes_str.simps)
qed

lemma established_battery:
  "established [battery] =
     [(''180f'', \<lparr> uuid_c = ''2a19'', isNotifiable = True, monitor_throws = False \<rparr>)]"
  by (simp add: established_def notifiable_def battery_def)

lemma connectedToSensor_fields:
  "bleManagerRef connectedToSensor"
  "connectedDevice connectedToSensor = Some sensor"
  "timers connectedToSensor = [0 \<mapsto> ReconnectTimeout (render mounted) sensor]"
  "nextTimer connectedToSensor = 1"
  "subscriptions connectedToSensor 0 = Some (DisconnectMonitor (render reconnecting) sensor)"
  "subscriptions connectedToSensor 1 = Some (CharacteristicMonitor ''180f'' ''2a19'')"
  "nextSubscription connectedToSensor = 2"
  "subscriptionsRef connectedToSensor = [0, 1]"
proof -
  have 1: "bleManagerRef reconnecting" by (rule reconnecting_fields)
  have 2: "isConnected_r (connects sensor) = Inr False"
    and 3: "connectToDevice_r (connects sensor) = Inr sensor"
    and 4: "discover_r (connects sensor) = None"
    by (simp_all add: connects_def)
  note f = connectToDevice_connects_fields [OF 1 2 3 4, of "render reconnecting" sensor,
      folded connectedToSensor_def]
  have ns: "\<not> isScanning_c (render reconnecting)" by (simp add: render_def reconnecting_fields)
  have eq: "connectedToSensor =
              fst (subscribeToCharacteristics (Inr [battery])
                     (setupConnectionMonitoring (render reconnecting) sensor
                        (setConnectionStatus Connected
                           ((setConnectionStatus Connecting reconnecting)
                              \<lparr> connectedDevice := Some sensor, isConnected := True \<rparr>))))"
    unfolding connectedToSensor_def
  proof -
    have sv: "services_r (connects sensor) = Inr [battery]" by (simp add: connects_def)
    from ns show "connectToDevice (render reconnecting) (connects sensor) sensor reconnecting =
              fst (subscribeToCharacteristics (Inr [battery])
                     (setupConnectionMonitoring (render reconnecting) sensor
                        (setConnectionStatus Connected
                           ((setConnectionStatus Connecting reconnecting)
                              \<lparr> connectedDevice := Some sensor, isConnected := True \<rparr>))))"
      by (simp add: connectToDevice_connects [OF 1 2 3 4] sv)
  qed
  show "bleManagerRef connectedToSensor" by (rule f)
  show "connectedDevice connectedToSensor = Some sensor" by (rule f)
  show "timers connectedToSensor = [0 \<mapsto> ReconnectTimeout (render mounted) sensor]"
    using ns by (simp add: f(5) reconnecting_fields)
  show "nextTimer connectedToSensor = 1" by (simp add: f(6) reconnecting_fields)
  show "subscriptions connectedToSensor 0 = Some (DisconnectMonitor (render reconnecting) sensor)"
    by (simp add: eq subscribeToCharacteristics_eq established_battery
        setupConnectionMonitoring_def addSubscription_def setConnectionStatus_def
        reconnecting_subscriptions)
  show "subscriptions connectedToSensor 1 = Some (CharacteristicMonitor ''180f'' ''2a19'')"
    by (simp add: eq subscribeToCharacteristics_eq established_battery
        setupConnectionMonitoring_def addSubscription_def setConnectionStatus_def
        reconnecting_subscriptions)
  show "nextSubscription connectedToSensor = 2"
    by (simp add: eq subscribeToCharacteristics_eq established_battery
        setupConnectionMonitoring_def addSubscription_def setConnectionStatus_def
        reconnecting_subscriptions)
  show "subscriptionsRef connectedToSensor = [0, 1]"
    by (simp add: eq subscribeToCharacteristics_eq established_battery
        setupConnectionMonitoring_def addSubscription_def setConnectionStatus_def
        reconnecting_subscriptions)
qed

lemma disconnectedCallback_reconnects:
  assumes "autoReconnect_c c" and "\<not> mentionsCancelled err"
  shows "connectionStatus (disconnectedCallback c d err dd s) = Reconnecting"
    and "connectedDevice (disconnectedCallback c d err dd s) = None"
    and "\<not> isConnected (disconnectedCallback c d err dd s)"
    and "subscriptionsRef (disconnectedCallback c d err dd s) = []"
    and "reconnectTimeoutRef (disconnectedCallback c d err dd s) = Some (nextTimer s)"
    and "pending (nextTimer s) (disconnectedCallback c d err dd s)"
  using assms
  by (simp_all add: disconnectedCallback_def clearSubscriptions_eq scheduleReconnect_def
      setTimeout_def setConnectionStatus_def pending_def Let_def)

lemma shortCircuited_eq:
  "shortCircuited =
     connectToDevice (render mounted) alreadyConnected sensor (clearTimeout 0 connectedToSensor)"
  by (simp add: shortCircuited_def fireTimer_def connectedToSensor_fields)

text \<open>
  C10 as stated fails when a disconnect listener of an earlier connection is still live.
  The user connects to the sensor while its reconnect timer is pending (the listener is
  registered); the timer fires and \<open>connectToDevice\<close> takes the already-connected branch.
  A peripheral-initiated disconnect after that runs the earlier listener: the handles are
  released and a reconnect is scheduled.
\<close>

theorem listener_of_earlier_connection_fires:
  "isConnected_r alreadyConnected = Inr True \<and>
   shortCircuited =
     connectToDevice (render mounted) alreadyConnected sensor (clearTimeout 0 connectedToSensor) \<and>
   connectionStatus shortCircuited = Connected \<and>
   connectedDevice shortCircuited = Some sensor \<and>
   subscriptionsRef shortCircuited = [0, 1, 2, 3, 4] \<and>
   connectionStatus (onDeviceDisconnected ''AA:01'' None None shortCircuited) = Reconnecting \<and>
   connectedDevice (onDeviceDisconnected ''AA:01'' None None shortCircuited) = None \<and>
   subscriptionsRef (onDeviceDisconnected ''AA:01'' None None shortCircuited) = [] \<and>
   pending 1 (onDeviceDisconnected ''AA:01'' None None shortCircuited)"
proof -
  let ?s0 = "clearTimeout 0 connectedToSensor"
  have 1: "bleManagerRef ?s0" by (simp add: clearTimeout_def connectedToSensor_fields)
  have 2: "isConnected_r alreadyConnected = Inr True" by (simp add: alreadyConnected_def)
  have sv: "services_r alreadyConnected = Inr [heartRate, broken, battery]"
    by (simp add: alreadyConnected_def)
  have len: "length (established [heartRate, broken, battery]) = 3"
    by (simp add: established_def notifiable_def heartRate_def broken_def battery_def)
  have s0: "subscriptions ?s0 = subscriptions connectedToSensor"
    "nextSubscription ?s0 = 2" "subscriptionsRef ?s0 = [0, 1]" "nextTimer ?s0 = 1"
    by (simp_all add: clearTimeout_def connectedToSensor_fields)
  have c0: "subscriptions connectedToSensor 0 = Some (DisconnectMonitor (render reconnecting) sensor)"
    by (rule connectedToSensor_fields)
  have c1: "subscriptions connectedToSensor (Suc 0) = Some (CharacteristicMonitor ''180f'' ''2a19'')"
    using connectedToSensor_fields(6) by simp
  have "disconnectMonitors ''AA:01'' ?s0 = [0]"
    by (simp add: disconnectMonitors_def s0 upt_rec numeral_2_eq_2 c0 c1 sensor_def)
  then have mon: "disconnectMonitors ''AA:01'' shortCircuited = [0]"
    by (simp only: shortCircuited_eq disconnectMonitors_alreadyConnected [OF 1 2])
  have l0: "subscriptions shortCircuited 0 =
              Some (DisconnectMonitor (render reconnecting) sensor)"
    by (simp add: shortCircuited_eq subscriptions_alreadyConnected(1) [OF 1 2] sv
        register_below s0 connectedToSensor_fields)
  have nt: "nextTimer shortCircuited = 1"
    by (simp add: shortCircuited_eq subscriptions_alreadyConnected(2) [OF 1 2] s0)
  have f: "connectionStatus shortCircuited = Connected \<and>
           connectedDevice shortCircuited = Some sensor \<and>
           subscriptionsRef shortCircuited = [0, 1, 2, 3, 4]"
    using alreadyConnected_fields [OF 1 2, of "render mounted" sensor]
    by (simp add: shortCircuited_eq [symmetric] sv len s0 upt_rec)
  have off: "onDeviceDisconnected ''AA:01'' None None shortCircuited =
               disconnectedCallback (render reconnecting) sensor None None shortCircuited"
    using mon l0 by (rule onDeviceDisconnected_single)
  have a: "autoReconnect_c (render reconnecting)" by (simp add: render_def reconnecting_fields)
  have m: "\<not> mentionsCancelled None" by (simp add: mentionsCancelled_def)
  note r = disconnectedCallback_reconnects
      [OF a m, where d = sensor and dd = None and s = shortCircuited]
  from 2 f r show ?thesis
    by (simp add: off nt shortCircuited_eq [symmetric])
qed

section \<open>A scan timer left by an earlier scan\<close>

lemma scanFailed_eq:
  "scanFailed =
     mounted\<lparr> isScanning := False, devices := [], permissionsGranted := True,
        adapterScanning := True, timers := [0 \<mapsto> ScanTimeout], nextTimer := Suc 0,
        scanTimeoutRef := Some 0 \<rparr>"
  by (simp add: scanFailed_def startScan_mounted)

lemma rescanning_eq:
  "rescanning =
     mounted\<lparr> isScanning := True, devices := [], permissionsGranted := True,
        adapterScanning := True, timers := [0 \<mapsto> ScanTimeout, Suc 0 \<mapsto> ScanTimeout],
        nextTimer := Suc (Suc 0), scanTimeoutRef := Some (Suc 0) \<rparr>"
proof -
  have 1: "bleManagerRef scanFailed" and 2: "state_r (prerequisites scan_ok) = Inr PoweredOn"
    and 3: "permissionsGranted_c (render scanFailed) \<or> granted_r (prerequisites scan_ok)"
    and 4: "\<not> startDeviceScan_throws scan_ok"
    by (simp_all add: scanFailed_eq mounted_eq scan_ok_def initial_state_def render_def)
  show ?thesis
    unfolding rescanning_def
    by (simp add: startScan_proceeds [OF 1 2 3 4]) (simp add: scanFailed_eq)
qed

lemma stoppedAgain_eq:
  "stoppedAgain =
     mounted\<lparr> isScanning := False, devices := [], permissionsGranted := True,
        adapterScanning := False, timers := [0 \<mapsto> ScanTimeout],
        nextTimer := Suc (Suc 0), scanTimeoutRef := Some (Suc 0) \<rparr>"
  by (simp add: stoppedAgain_def stopScan_eq rescanning_eq)
    (simp add: mounted_eq initial_state_def fun_upd_twist)

lemma thirdScan_eq:
  "thirdScan =
     mounted\<lparr> isScanning := True, devices := [], permissionsGranted := True,
        adapterScanning := True,
        timers := [0 \<mapsto> ScanTimeout, Suc (Suc 0) \<mapsto> ScanTimeout],
        nextTimer := Suc (Suc (Suc 0)), scanTimeoutRef := Some (Suc (Suc 0)) \<rparr>"
proof -
  have 1: "bleManagerRef stoppedAgain" and 2: "state_r (prerequisites scan_ok) = Inr PoweredOn"
    and 3: "permissionsGranted_c (render stoppedAgain) \<or> granted_r (prerequisites scan_ok)"
    and 4: "\<not> startDeviceScan_throws scan_ok"
    by (simp_all add: stoppedAgain_eq mounted_eq scan_ok_def initial_state_def render_def)
  show ?thesis
    unfolding thirdScan_def
    by (simp add: startScan_proceeds [OF 1 2 3 4]) (simp add: stoppedAgain_eq)
qed

text \<open>
  C9. \<open>stopScan\<close> clears the one timer whose handle \<open>scanTimeoutRef\<close> holds. The scan
  callback ends a scan on a scan error by setting \<open>isScanning\<close> to false only (lines
  252-259), leaving that scan's timer pending, and the next \<open>startScan\<close> overwrites the ref
  (line 289). So after scan error, start and stop, the timer of the latest start is
  cancelled but the timer of the first scan is still pending; it fires later and stops
  a scan that was started in the meantime.
\<close>

theorem orphaned_scan_timer_fires:
  "isScanning rescanning \<and> scanTimeoutRef rescanning = Some 1 \<and>
   pending 0 rescanning \<and> pending 1 rescanning \<and>
   \<not> isScanning stoppedAgain \<and> \<not> pending 1 stoppedAgain \<and>
   pending 0 stoppedAgain \<and> timers stoppedAgain 0 = Some ScanTimeout \<and>
   fireTimer 0 (connects sensor) stoppedAgain \<noteq> stoppedAgain \<and>
   isScanning thirdScan \<and> adapterScanning thirdScan \<and>
   \<not> isScanning (fireTimer 0 (connects sensor) thirdScan) \<and>
   \<not> adapterScanning (fireTimer 0 (connects sensor) thirdScan)"
proof -
  have a: "isScanning rescanning \<and> scanTimeoutRef rescanning = Some 1 \<and>
           pending 0 rescanning \<and> pending 1 rescanning"
    by (simp add: rescanning_eq pending_def)
  have b: "\<not> isScanning stoppedAgain \<and> \<not> pending 1 stoppedAgain \<and>
           pending 0 stoppedAgain \<and> timers stoppedAgain 0 = Some ScanTimeout"
    by (simp add: stoppedAgain_eq pending_def)
  have "timers (fireTimer 0 (connects sensor) stoppedAgain) 0 = None"
    by (simp add: fireTimer_def stoppedAgain_eq stopScan_eq clearTimeout_def)
  with b have c: "fireTimer 0 (connects sensor) stoppedAgain \<noteq> stoppedAgain" by auto
  have d: "isScanning thirdScan \<and> adapterScanning thirdScan"
    by (simp add: thirdScan_eq)
  have e: "\<not> isScanning (fireTimer 0 (connects sensor) thirdScan) \<and>
           \<not> adapterScanning (fireTimer 0 (connects sensor) thirdScan)"
    by (simp add: fireTimer_def thirdScan_eq stopScan_eq clearTimeout_def)
      (simp add: mounted_eq initial_state_def)
  from a b c d e show ?thesis by blast
qed

end
